theory Spec2Isabelle
  imports Main "HOL-Library.Char_ord" "HOL-Library.List_Lexorder" "HOL-Library.Sublist"
begin

section \<open>JavaScript string primitives used by the sources\<close>

text \<open>
  JavaScript strings are modelled as \<^typ>\<open>string\<close> (lists of code units), indices and
  line/column numbers as \<^typ>\<open>int\<close>. The relational operator \<open><\<close> on two JavaScript
  strings compares them code unit by code unit, a proper prefix being smaller: that is the
  lexicographic order on lists from \<open>List_Lexorder\<close>.
\<close>

text \<open>\<open>s[i]\<close>: the code unit at index \<open>i\<close>, \<open>undefined\<close> (here \<open>None\<close>) out of range.\<close>

definition js_at :: "'a list \<Rightarrow> int \<Rightarrow> 'a option" where
  "js_at xs i = (if 0 \<le> i \<and> i < int (length xs) then Some (xs ! nat i) else None)"

text \<open>\<open>s.split(c)\<close> for a one-character separator: never returns the empty array.\<close>

fun js_split :: "char \<Rightarrow> string \<Rightarrow> string list" where
  "js_split c [] = [[]]"
| "js_split c (x # xs) =
     (if x = c then [] # js_split c xs
      else (case js_split c xs of [] \<Rightarrow> [[x]] | l # ls \<Rightarrow> (x # l) # ls))"

text \<open>\<open>s.slice(a, b)\<close>: a negative index counts from the end, both are clamped.\<close>

definition js_slice :: "string \<Rightarrow> int \<Rightarrow> int \<Rightarrow> string" where
  "js_slice s a b =
     (let len = int (length s);
          from = (if a < 0 then max (len + a) 0 else min a len);
          to = (if b < 0 then max (len + b) 0 else min b len)
      in if from \<ge> to then [] else take (nat (to - from)) (drop (nat from) s))"

text \<open>The descending scan of \<open>lastIndexOf\<close>: the largest \<open>i \<le> k\<close> at which \<open>t\<close> occurs in \<open>s\<close>.\<close>

fun lastIndexScan :: "string \<Rightarrow> string \<Rightarrow> nat \<Rightarrow> int" where
  "lastIndexScan s t 0 = (if take (length t) s = t then 0 else -1)"
| "lastIndexScan s t (Suc k) =
     (if take (length t) (drop (Suc k) s) = t then int (Suc k) else lastIndexScan s t k)"

text \<open>\<open>s.lastIndexOf(t, pos)\<close>: the start is \<open>pos\<close> clamped between 0 and \<open>len - searchLen\<close>.\<close>

definition js_lastIndexOfFrom :: "string \<Rightarrow> string \<Rightarrow> int \<Rightarrow> int" where
  "js_lastIndexOfFrom s t pos =
     (if length t > length s then -1
      else lastIndexScan s t (nat (min (max pos 0) (int (length s) - int (length t)))))"

text \<open>\<open>s.lastIndexOf(t)\<close>: the position defaults to \<open>+Infinity\<close>.\<close>

definition js_lastIndexOf :: "string \<Rightarrow> string \<Rightarrow> int" where
  "js_lastIndexOf s t = js_lastIndexOfFrom s t (int (length s))"

text \<open>\<open>xs.join(sep)\<close> on an array of strings.\<close>

fun js_join :: "string \<Rightarrow> string list \<Rightarrow> string" where
  "js_join sep [] = []"
| "js_join sep [x] = x"
| "js_join sep (x # y # ys) = x @ sep @ js_join sep (y # ys)"

section \<open>ModuleResolution.js\<close>

subsection \<open>getArrayLowestItem\<close>

text \<open>
  The loop \<open>for (let i = 1; i < a.length; ++i) if (a[i] < lowest) lowest = a[i]\<close>
  over the remaining elements, with the running minimum as accumulator.
\<close>

fun lowestLoop :: "string \<Rightarrow> string list \<Rightarrow> string" where
  "lowestLoop lowest [] = lowest"
| "lowestLoop lowest (x # xs) = lowestLoop (if x < lowest then x else lowest) xs"

text \<open>\<open>undefined\<close> for the empty array, else the result of the loop started at \<open>a[0]\<close>.\<close>

fun getArrayLowestItem :: "string list \<Rightarrow> string option" where
  "getArrayLowestItem [] = None"
| "getArrayLowestItem (x # xs) = Some (lowestLoop x xs)"

subsection \<open>Source locations and the code frame position\<close>

record Position =
  line :: int
  column :: int

text \<open>A Babel source location \<open>{start, end}\<close> as recorded in \<open>dependency.data.locs\<close>.\<close>

record BabelSourceLocation =
  loc_start :: Position
  loc_end :: Position

text \<open>The location handed to \<open>codeFrameColumns\<close>: \<open>{start, end?}\<close>.\<close>

record FrameLocation =
  frame_start :: Position
  frame_end :: "Position option"

text \<open>\<open>isQuote(str)\<close>: one of the three quote characters; \<open>undefined\<close> is not a quote.\<close>

definition isQuote :: "char option \<Rightarrow> bool" where
  "isQuote str = (str = Some (CHR 0x22) \<or> str = Some (CHR 0x27) \<or> str = Some (CHR 0x60))"

text \<open>
  The inner loop of \<open>refineDependencyLocation\<close>: \<open>offset\<close> runs over the occurrences of
  the specifier in \<open>lineSlice\<close>, from the last one down, while it leaves room for quotes.
\<close>

function refineScan ::
  "string \<Rightarrow> string \<Rightarrow> int \<Rightarrow> string \<Rightarrow> int \<Rightarrow> int \<Rightarrow> FrameLocation option" where
  "refineScan lineStr lineSlice minColumn targetSpecifier ln offset =
     (if offset \<noteq> - 1 \<and> offset > 0 \<and> offset < int (length lineSlice) - 1 then
        (let maybeQuoteBefore = js_at lineSlice (minColumn + offset - 1);
             maybeQuoteAfter = js_at lineStr (minColumn + offset + int (length targetSpecifier))
         in if isQuote maybeQuoteBefore \<and> maybeQuoteBefore = maybeQuoteAfter then
              Some \<lparr>frame_start = \<lparr>line = ln + 1, column = minColumn + offset + 1\<rparr>,
                    frame_end = None\<rparr>
            else refineScan lineStr lineSlice minColumn targetSpecifier ln
                   (js_lastIndexOfFrom lineSlice targetSpecifier (offset - 1)))
      else None)"
  by pat_completeness auto
termination
proof (relation "measure (\<lambda>(lineStr, lineSlice, minColumn, targetSpecifier, ln, offset). nat offset)")
  show "wf (measure (\<lambda>(lineStr, lineSlice, minColumn, targetSpecifier, ln, offset). nat offset))"
    by simp
next
  fix lineStr lineSlice :: string and minColumn :: int and targetSpecifier :: string
    and ln offset :: int and x xa
  assume "offset \<noteq> - 1 \<and> 0 < offset \<and> offset < int (length lineSlice) - 1"
  then have pos: "0 \<le> offset - 1" by simp
  have scan: "lastIndexScan s t k \<le> int k" for s t :: string and k
    by (induction k) auto
  have "js_lastIndexOfFrom lineSlice targetSpecifier (offset - 1) \<le> offset - 1"
  proof (cases "length targetSpecifier > length lineSlice")
    case True
    with pos show ?thesis by (simp add: js_lastIndexOfFrom_def)
  next
    case False
    let ?k = "nat (min (max (offset - 1) 0) (int (length lineSlice) - int (length targetSpecifier)))"
    have "lastIndexScan lineSlice targetSpecifier ?k \<le> int ?k" by (rule scan)
    also have "int ?k \<le> offset - 1" using pos False by simp
    finally show ?thesis using False by (simp add: js_lastIndexOfFrom_def)
  qed
  with \<open>offset \<noteq> - 1 \<and> 0 < offset \<and> offset < int (length lineSlice) - 1\<close>
  show "((lineStr, lineSlice, minColumn, targetSpecifier, ln,
           js_lastIndexOfFrom lineSlice targetSpecifier (offset - 1)),
          (lineStr, lineSlice, minColumn, targetSpecifier, ln, offset))
        \<in> measure (\<lambda>(lineStr, lineSlice, minColumn, targetSpecifier, ln, offset). nat offset)"
    by simp
qed

text \<open>
  The outer loop of \<open>refineDependencyLocation\<close>, over the 0-based line index \<open>ln\<close> from
  \<open>loc.end.line - 1\<close> down to \<open>loc.start.line - 1\<close>. \<open>lines[line]\<close> is \<open>undefined\<close> outside
  the file, on which \<open>.length\<close> and \<open>.slice\<close> throw a \<open>TypeError\<close> (here \<open>None\<close>). A
  result \<open>Some None\<close> says that the loop ended without finding the quoted specifier.
\<close>

function refineLines ::
  "string list \<Rightarrow> BabelSourceLocation \<Rightarrow> string \<Rightarrow> int \<Rightarrow> FrameLocation option option" where
  "refineLines lines loc targetSpecifier ln =
     (if ln \<ge> line (loc_start loc) - 1 then
        (case js_at lines ln of
           None \<Rightarrow> None
         | Some lineStr \<Rightarrow>
             (let maxColumn = (if ln = line (loc_end loc) then column (loc_end loc) + 2
                               else int (length lineStr));
                  minColumn = (if ln = line (loc_start loc) then column (loc_start loc) - 1 else 0);
                  lineSlice = js_slice lineStr minColumn maxColumn
              in case refineScan lineStr lineSlice minColumn targetSpecifier ln
                        (js_lastIndexOf lineSlice targetSpecifier) of
                   Some found \<Rightarrow> Some (Some found)
                 | None \<Rightarrow> refineLines lines loc targetSpecifier (ln - 1)))
      else Some None)"
  by pat_completeness auto
termination
  by (relation "measure (\<lambda>(lines, loc, targetSpecifier, ln). nat (ln - line (loc_start loc) + 2))")
    auto

declare refineScan.simps [simp del]
declare refineLines.simps [simp del]

text \<open>
  \<open>refineDependencyLocation(loc, fileContents, targetSpecifier)\<close>: the quoted specifier
  when the loops find it, else the recorded location as a range when it is on one line,
  else the first column of the recorded location. \<open>None\<close> is the \<open>TypeError\<close>.
\<close>

definition refineDependencyLocation ::
  "BabelSourceLocation \<Rightarrow> string \<Rightarrow> string \<Rightarrow> FrameLocation option" where
  "refineDependencyLocation loc fileContents targetSpecifier =
     (case refineLines (js_split (CHR 0x0A) fileContents) loc targetSpecifier
             (line (loc_end loc) - 1) of
        None \<Rightarrow> None
      | Some (Some found) \<Rightarrow> Some found
      | Some None \<Rightarrow>
          (if line (loc_start loc) = line (loc_end loc) then
             Some \<lparr>frame_start = \<lparr>line = line (loc_start loc), column = column (loc_start loc) + 1\<rparr>,
                   frame_end = Some \<lparr>line = line (loc_end loc), column = column (loc_end loc) + 1\<rparr>\<rparr>
           else
             Some \<lparr>frame_start = \<lparr>line = line (loc_start loc), column = column (loc_start loc) + 1\<rparr>,
                   frame_end = None\<rparr>))"

text \<open>
  The loop of \<open>guessDependencyLocation\<close>: the first line (index \<open>ln\<close>) holding the
  specifier, with the column of its last occurrence there; \<open>(0, -1)\<close> when no line does.
\<close>

fun guessLoop :: "string list \<Rightarrow> string \<Rightarrow> int \<Rightarrow> int \<times> int" where
  "guessLoop [] targetSpecifier ln = (0, - 1)"
| "guessLoop (l # ls) targetSpecifier ln =
     (let columnLocation = js_lastIndexOf l targetSpecifier
      in if columnLocation \<ge> 0 then (ln, columnLocation)
         else guessLoop ls targetSpecifier (ln + 1))"

definition guessDependencyLocation :: "string \<Rightarrow> string \<Rightarrow> FrameLocation" where
  "guessDependencyLocation fileContents targetSpecifier =
     (case guessLoop (js_split (CHR 0x0A) fileContents) targetSpecifier 0 of
        (lineNumber, col) \<Rightarrow>
          \<lparr>frame_start = \<lparr>line = lineNumber + 1, column = col + 1\<rparr>, frame_end = None\<rparr>)"

subsection \<open>Resolutions, dependencies and errors\<close>

text \<open>The resolver's \<open>Resolution\<close>, a union tagged by \<open>type\<close>.\<close>

datatype Resolution =
  SourceFile string
| AssetFiles "string list"
| Empty

text \<open>\<open>BundlerResolution\<close>: \<open>{type: 'sourceFile', filePath}\<close>.\<close>

datatype BundlerResolution = BundlerSourceFile (filePath: string)

record DependencyData =
  key :: string
  asyncType :: "string option"
  isESMImport :: bool
  locs :: "BabelSourceLocation list"

record TransformResultDependency =
  name :: string
  data :: DependencyData

record ResolverInputOptions =
  dev :: bool

text \<open>
  \<open>FileCandidates\<close> is a type of the resolver package: either an asset name, or a source
  file prefix with the extensions tried. Only \<open>filePathPrefix\<close> is read in this file.
\<close>

datatype FileCandidates =
  AssetCandidates string
| SourceFileCandidates string "string list"

text \<open>The \<open>candidates\<close> of a \<open>FailedToResolvePathError\<close>: \<open>{file, dir}\<close>, each nullable.\<close>

record Candidates =
  candidates_file :: "FileCandidates option"
  candidates_dir :: "FileCandidates option"

text \<open>
  What \<open>Resolver.resolve\<close> can throw: the three resolver errors with the fields read by
  \<open>resolveDependency\<close>, and anything else.
\<close>

datatype ResolverError =
  FailedToResolvePathError Candidates
| FailedToResolveUnsupportedError string
| FailedToResolveNameError "string list" "string list"
| OtherError string

text \<open>An error of \<open>fs.readFileSync\<close>, with its \<open>code\<close>.\<close>

datatype FsError = FsError (code: string)

record UnableToResolveError =
  originModulePath :: string
  targetModuleName :: string
  message :: string
  cause :: "ResolverError option"

text \<open>Everything \<open>resolveDependency\<close> can throw.\<close>

datatype Thrown =
  ThrownUnableToResolve UnableToResolveError
| ThrownOther string
| ThrownFsError FsError
| ThrownTypeError
| ThrownInvariant string

text \<open>
  The collaborators of the module that live in other packages: \<open>Resolver.resolve\<close> (on
  the context built by \<open>createDefaultContext\<close> from the origin, the dependency,
  \<open>allowHaste\<close>, the platform and the resolver options), \<open>Resolver.formatFileCandidates\<close>,
  \<open>path.relative\<close>, \<open>path.join\<close>, \<open>fs.readFileSync\<close> and \<open>codeFrameColumns\<close>.
\<close>

record Env =
  resolve :: "string \<Rightarrow> TransformResultDependency \<Rightarrow> bool \<Rightarrow> string option \<Rightarrow>
              ResolverInputOptions \<Rightarrow> ResolverError + Resolution"
  formatFileCandidates :: "FileCandidates \<Rightarrow> string"
  path_relative :: "string \<Rightarrow> string \<Rightarrow> string"
  path_join :: "string \<Rightarrow> string \<Rightarrow> string"
  readFileSync :: "string \<Rightarrow> FsError + string"
  codeFrameColumns :: "string \<Rightarrow> FrameLocation \<Rightarrow> string"

text \<open>The options read by the class itself; the others are only passed to the resolver.\<close>

record Options =
  dirExists :: "string \<Rightarrow> bool"
  emptyModulePath :: string
  projectRoot :: string

text \<open>
  The fields of a \<open>ModuleResolver\<close>. \<open>emptyModuleComputations\<close> is not a field of the
  class: it counts how often \<open>_getEmptyModule\<close> took its \<open>if (!emptyModule)\<close> branch, so
  that "computed once" can be stated.
\<close>

record ModuleResolver =
  options :: Options
  projectRootFakeModulePath :: string
  cachedEmptyModule :: "BundlerResolution option"
  emptyModuleComputations :: nat

text \<open>The constructor.\<close>

definition newModuleResolver :: "Env \<Rightarrow> Options \<Rightarrow> ModuleResolver" where
  "newModuleResolver env opts =
     \<lparr>options = opts,
      projectRootFakeModulePath = path_join env (projectRoot opts) ''_'',
      cachedEmptyModule = None,
      emptyModuleComputations = 0\<rparr>"

subsection \<open>UnableToResolveError\<close>

text \<open>
  The initialiser of \<open>const location\<close> in \<open>buildCodeFrameMessage\<close>: the location is refined
  from the first recorded location, or guessed when the dependency records none. \<open>None\<close> is
  the \<open>TypeError\<close> of the refinement.
\<close>

definition dependencyLocation ::
  "TransformResultDependency option \<Rightarrow> string \<Rightarrow> string \<Rightarrow> FrameLocation option" where
  "dependencyLocation dependency fileContents target =
     (case dependency of
        None \<Rightarrow> Some (guessDependencyLocation fileContents target)
      | Some d \<Rightarrow>
          (case locs (data d) of
             [] \<Rightarrow> Some (guessDependencyLocation fileContents target)
           | loc # _ \<Rightarrow> refineDependencyLocation loc fileContents target))"

text \<open>
  \<open>buildCodeFrameMessage(dependency)\<close>: \<open>null\<close> when the origin file cannot be read
  because it does not exist or is a directory; any other read error is thrown. The file
  is read a second time, outside the \<open>try\<close>, for the frame itself.
\<close>

definition buildCodeFrameMessage ::
  "Env \<Rightarrow> string \<Rightarrow> string \<Rightarrow> TransformResultDependency option \<Rightarrow> Thrown + string option" where
  "buildCodeFrameMessage env origin target dependency =
     (case readFileSync env origin of
        Inl error \<Rightarrow>
          (if code error = ''ENOENT'' \<or> code error = ''EISDIR'' then Inr None
           else Inl (ThrownFsError error))
      | Inr fileContents \<Rightarrow>
          (case dependencyLocation dependency fileContents target of
             None \<Rightarrow> Inl ThrownTypeError
           | Some location \<Rightarrow>
               (case readFileSync env origin of
                  Inl error \<Rightarrow> Inl (ThrownFsError error)
                | Inr again \<Rightarrow> Inr (Some (codeFrameColumns env again location)))))"

text \<open>
  The constructor: \<open>util.format('Unable to resolve module %s from %s: %s', ...)\<close>, followed
  by a newline and the code frame when the code frame is a non-empty string.
\<close>

definition newUnableToResolveError ::
  "Env \<Rightarrow> string \<Rightarrow> string \<Rightarrow> string \<Rightarrow> TransformResultDependency option \<Rightarrow>
   ResolverError option \<Rightarrow> Thrown + UnableToResolveError" where
  "newUnableToResolveError env origin target msg dependency cause_opt =
     (case buildCodeFrameMessage env origin target dependency of
        Inl thrown \<Rightarrow> Inl thrown
      | Inr codeFrameMessage \<Rightarrow>
          Inr \<lparr>originModulePath = origin,
               targetModuleName = target,
               message =
                 ''Unable to resolve module '' @ target @ '' from '' @ origin @ '': '' @ msg @
                 (case codeFrameMessage of
                    None \<Rightarrow> []
                  | Some [] \<Rightarrow> []
                  | Some (c # cs) \<Rightarrow> CHR 0x0A # c # cs),
               cause = cause_opt\<rparr>)"

subsection \<open>ModuleResolver\<close>

text \<open>\<open>_removeRoot(candidates)\<close>: a non-empty \<open>filePathPrefix\<close> is made relative to the root.\<close>

definition removeRoot :: "Env \<Rightarrow> Options \<Rightarrow> FileCandidates \<Rightarrow> FileCandidates" where
  "removeRoot env opts candidates =
     (case candidates of
        AssetCandidates n \<Rightarrow> candidates
      | SourceFileCandidates filePathPrefix exts \<Rightarrow>
          (if filePathPrefix \<noteq> [] then
             SourceFileCandidates (path_relative env (projectRoot opts) filePathPrefix) exts
           else candidates))"

text \<open>\<open>[candidates.file, candidates.dir].filter(Boolean)\<close>, each passed through \<open>_removeRoot\<close>.\<close>

definition shownCandidates :: "Env \<Rightarrow> Options \<Rightarrow> Candidates \<Rightarrow> FileCandidates list" where
  "shownCandidates env opts candidates =
     map (removeRoot env opts)
       (List.map_filter (\<lambda>c. c) [candidates_file candidates, candidates_dir candidates])"

text \<open>The message built for a \<open>FailedToResolvePathError\<close>.\<close>

definition pathErrorMessage :: "Env \<Rightarrow> Options \<Rightarrow> Candidates \<Rightarrow> string" where
  "pathErrorMessage env opts candidates =
     [CHR 0x0A, CHR 0x0A] @ ''None of these files exist:'' @ [CHR 0x0A] @
     js_join [CHR 0x0A]
       (map (\<lambda>c. ''  * '' @ formatFileCandidates env c) (shownCandidates env opts candidates))"

text \<open>The message built for a \<open>FailedToResolveNameError\<close>.\<close>

definition nameErrorMessage ::
  "Env \<Rightarrow> Options \<Rightarrow> string \<Rightarrow> string list \<Rightarrow> string list \<Rightarrow> string" where
  "nameErrorMessage env opts depName dirPaths extraPaths =
     (let displayDirPaths =
            map (\<lambda>dirPath. path_relative env (projectRoot opts) dirPath)
              (filter (dirExists opts) dirPaths) @ extraPaths;
          hint = (if displayDirPaths \<noteq> [] then '' or in these directories:'' else [])
      in js_join [CHR 0x0A]
           ((depName @ '' could not be found within the project'' @
               (if hint \<noteq> [] then hint else ''.''))
            # map (\<lambda>dirPath. ''  '' @ dirPath) displayDirPaths))"

text \<open>
  The \<open>catch (error)\<close> block of \<open>resolveDependency\<close>: what is thrown for an error of
  \<open>Resolver.resolve\<close>. \<open>_removeRoot\<close> changes the candidates of the error in place, so
  the \<open>cause\<close> carries the changed candidates.
\<close>

definition catchResolverError ::
  "Env \<Rightarrow> Options \<Rightarrow> string \<Rightarrow> TransformResultDependency \<Rightarrow> ResolverError \<Rightarrow> Thrown" where
  "catchResolverError env opts origin dependency error =
     (case error of
        FailedToResolvePathError candidates \<Rightarrow>
          (case newUnableToResolveError env origin (name dependency)
                  (pathErrorMessage env opts candidates) (Some dependency)
                  (Some (FailedToResolvePathError
                     \<lparr>candidates_file = map_option (removeRoot env opts) (candidates_file candidates),
                      candidates_dir = map_option (removeRoot env opts) (candidates_dir candidates)\<rparr>)) of
             Inl thrown \<Rightarrow> thrown
           | Inr e \<Rightarrow> ThrownUnableToResolve e)
      | FailedToResolveUnsupportedError msg \<Rightarrow>
          (case newUnableToResolveError env origin (name dependency) msg (Some dependency)
                  (Some error) of
             Inl thrown \<Rightarrow> thrown
           | Inr e \<Rightarrow> ThrownUnableToResolve e)
      | FailedToResolveNameError dirPaths extraPaths \<Rightarrow>
          (case newUnableToResolveError env origin (name dependency)
                  (nameErrorMessage env opts (name dependency) dirPaths extraPaths)
                  (Some dependency) (Some error) of
             Inl thrown \<Rightarrow> thrown
           | Inr e \<Rightarrow> ThrownUnableToResolve e)
      | OtherError msg \<Rightarrow> ThrownOther msg)"

text \<open>The dependency that \<open>_getEmptyModule\<close> resolves.\<close>

definition emptyModuleDependency :: "Options \<Rightarrow> TransformResultDependency" where
  "emptyModuleDependency opts =
     \<lparr>name = emptyModulePath opts,
      data = \<lparr>key = emptyModulePath opts, asyncType = None, isESMImport = False, locs = []\<rparr>\<rparr>"

text \<open>
  \<open>resolveDependency\<close>, \<open>_getFileResolvedModule\<close> and \<open>_getEmptyModule\<close> call each other.
  The first argument bounds the depth of the calls of \<open>resolveDependency\<close>: when the
  resolver answers \<open>empty\<close> for the empty module itself the source recurses until the call
  stack is exhausted, and the model returns \<open>None\<close>. A result is what was returned or
  thrown, with the instance after the call.
\<close>

fun resolveDependency ::
  "nat \<Rightarrow> Env \<Rightarrow> ModuleResolver \<Rightarrow> string \<Rightarrow> TransformResultDependency \<Rightarrow> bool \<Rightarrow>
   string option \<Rightarrow> ResolverInputOptions \<Rightarrow> ((Thrown + BundlerResolution) \<times> ModuleResolver) option"
and getFileResolvedModule ::
  "nat \<Rightarrow> Env \<Rightarrow> ModuleResolver \<Rightarrow> Resolution \<Rightarrow>
   ((Thrown + BundlerResolution) \<times> ModuleResolver) option"
and getEmptyModule ::
  "nat \<Rightarrow> Env \<Rightarrow> ModuleResolver \<Rightarrow> ((Thrown + BundlerResolution) \<times> ModuleResolver) option"
where
  "resolveDependency 0 env self origin dependency allowHaste platform resolverOptions = None"
| "resolveDependency (Suc fuel) env self origin dependency allowHaste platform resolverOptions =
     (case resolve env origin dependency allowHaste platform resolverOptions of
        Inr result \<Rightarrow> getFileResolvedModule fuel env self result
      | Inl error \<Rightarrow>
          Some (Inl (catchResolverError env (options self) origin dependency error), self))"
| "getFileResolvedModule fuel env self (SourceFile p) = Some (Inr (BundlerSourceFile p), self)"
| "getFileResolvedModule fuel env self (AssetFiles filePaths) =
     (case getArrayLowestItem filePaths of
        None \<Rightarrow> Some (Inl (ThrownInvariant ''invalid asset resolution''), self)
      | Some arbitrary \<Rightarrow> Some (Inr (BundlerSourceFile arbitrary), self))"
| "getFileResolvedModule fuel env self Empty = getEmptyModule fuel env self"
| "getEmptyModule fuel env self =
     (case cachedEmptyModule self of
        Some emptyModule \<Rightarrow> Some (Inr emptyModule, self)
      | None \<Rightarrow>
          (case resolveDependency fuel env
                  (self\<lparr>emptyModuleComputations := Suc (emptyModuleComputations self)\<rparr>)
                  (projectRootFakeModulePath self) (emptyModuleDependency (options self))
                  False None \<lparr>dev = False\<rparr> of
             None \<Rightarrow> None
           | Some (Inl thrown, self') \<Rightarrow> Some (Inl thrown, self')
           | Some (Inr emptyModule, self') \<Rightarrow>
               Some (Inr emptyModule, self'\<lparr>cachedEmptyModule := Some emptyModule\<rparr>)))"

subsection \<open>What the thrown error reports\<close>




subsection \<open>Sequences of calls on one instance\<close>

text \<open>
  The two cases of \<open>_getFileResolvedModule\<close> that do not call \<open>_getEmptyModule\<close>: the
  resolution a \<open>sourceFile\<close> or a non-empty \<open>assetFiles\<close> answer is coerced to.
\<close>

definition concreteResolution :: "Resolution \<Rightarrow> BundlerResolution option" where
  "concreteResolution r =
     (case r of
        SourceFile p \<Rightarrow> Some (BundlerSourceFile p)
      | AssetFiles filePaths \<Rightarrow> map_option BundlerSourceFile (getArrayLowestItem filePaths)
      | Empty \<Rightarrow> None)"

text \<open>The arguments of one call of \<open>resolveDependency\<close>.\<close>

record Request =
  req_origin :: string
  req_dependency :: TransformResultDependency
  req_allowHaste :: bool
  req_platform :: "string option"
  req_resolverOptions :: ResolverInputOptions

text \<open>What \<open>Resolver.resolve\<close> answers to a request.\<close>

definition resolverAnswer :: "Env \<Rightarrow> Request \<Rightarrow> ResolverError + Resolution" where
  "resolverAnswer env q =
     resolve env (req_origin q) (req_dependency q) (req_allowHaste q) (req_platform q)
       (req_resolverOptions q)"

text \<open>
  A caller that issues the requests one after the other on the same instance, keeping what
  each call returned or threw.
\<close>

fun resolveMany ::
  "nat \<Rightarrow> Env \<Rightarrow> ModuleResolver \<Rightarrow> Request list \<Rightarrow>
   ((Thrown + BundlerResolution) list \<times> ModuleResolver) option" where
  "resolveMany fuel env self [] = Some ([], self)"
| "resolveMany fuel env self (q # qs) =
     (case resolveDependency fuel env self (req_origin q) (req_dependency q) (req_allowHaste q)
             (req_platform q) (req_resolverOptions q) of
        None \<Rightarrow> None
      | Some (res, self') \<Rightarrow>
          (case resolveMany fuel env self' qs of
             None \<Rightarrow> None
           | Some (rs, self'') \<Rightarrow> Some (res # rs, self'')))"

text \<open>
  The two states of the cache of the empty module: not yet computed, or computed once with
  the value \<open>m\<close> stored.
\<close>

definition emptyModuleState :: "BundlerResolution \<Rightarrow> ModuleResolver \<Rightarrow> bool" where
  "emptyModuleState m self =
     (cachedEmptyModule self = None \<and> emptyModuleComputations self = 0 \<or>
      cachedEmptyModule self = Some m \<and> emptyModuleComputations self = 1)"

section \<open>FSEventsWatcher.js\<close>

subsection \<open>_handleEvent\<close>

text \<open>
  What \<open>fsPromises.lstat\<close> yields on success: the fields read here, and \<open>kind\<close> for
  whatever else \<open>typeFromStat\<close> inspects.
\<close>

record Stats =
  mtime :: int
  stat_size :: int
  kind :: string

text \<open>\<open>ChangeEventMetadata\<close>.\<close>

record ChangeEventMetadata =
  meta_type :: string
  modifiedTime :: int
  meta_size :: int

text \<open>The payload of the \<open>all\<close> event, tagged by \<open>event\<close>: \<open>touch\<close> or \<open>delete\<close>.\<close>

datatype WatcherBackendChangeEvent =
  TouchEvent string string ChangeEventMetadata
| DeleteEvent string string

text \<open>An error caught by the \<open>try\<close> of \<open>_handleEvent\<close>, with its \<open>code\<close> if it has one.\<close>

datatype CaughtError = CaughtError (error_code: "string option")

text \<open>What the watcher emits: \<open>emit('all', payload)\<close> or \<open>emit('error', error)\<close>.\<close>

datatype Emitted =
  EmitAll WatcherBackendChangeEvent
| EmitError CaughtError

text \<open>
  The helpers imported from \<open>./common\<close> and \<open>path\<close>, and the listeners of the emitter.
  \<open>typeFromStat\<close> and \<open>isIncluded\<close> are called inside the \<open>try\<close>, so what they throw is
  caught there. \<open>allListeners\<close> and \<open>errorListeners\<close> say what \<open>emit('all', payload)\<close> and
  \<open>emit('error', error)\<close> do once the event is out: they return (\<open>None\<close>), or a listener
  throws (an \<open>error\<close> event without a listener throws the error itself).
\<close>

record WatcherDeps =
  typeFromStat :: "Stats \<Rightarrow> CaughtError + string option"
  isIncluded :: "string \<Rightarrow> string list \<Rightarrow> bool \<Rightarrow> (string \<Rightarrow> bool) \<Rightarrow> string \<Rightarrow> CaughtError + bool"
  relative :: "string \<Rightarrow> string \<Rightarrow> string"
  allListeners :: "WatcherBackendChangeEvent \<Rightarrow> CaughtError option"
  errorListeners :: "CaughtError \<Rightarrow> CaughtError option"

record FSEventsWatcher =
  root :: string
  glob :: "string list"
  dot :: bool
  doIgnore :: "string \<Rightarrow> bool"
  tracked :: "string set"

text \<open>
  The \<open>catch (error)\<close> block of \<open>_handleEvent\<close>: the events emitted, the watcher after
  it, and the error with which the promise of \<open>_handleEvent\<close> rejects when an emit throws
  inside the block. A \<open>delete\<close> whose listener throws is not removed from the tracked set.
\<close>

definition handleCaught ::
  "WatcherDeps \<Rightarrow> FSEventsWatcher \<Rightarrow> string \<Rightarrow> string \<Rightarrow> CaughtError \<Rightarrow>
   Emitted list \<times> FSEventsWatcher \<times> CaughtError option" where
  "handleCaught deps self filepath relativePath error =
     (if error_code error \<noteq> Some ''ENOENT'' then
        ([EmitError error], self, errorListeners deps error)
      else if filepath \<notin> tracked self then ([], self, None)
      else
        (case allListeners deps (DeleteEvent relativePath (root self)) of
           Some thrown \<Rightarrow> ([EmitAll (DeleteEvent relativePath (root self))], self, Some thrown)
         | None \<Rightarrow>
             ([EmitAll (DeleteEvent relativePath (root self))],
              self\<lparr>tracked := tracked self - {filepath}\<rparr>, None)))"

text \<open>
  \<open>_handleEvent(filepath)\<close>, given what \<open>await fsPromises.lstat(filepath)\<close> yields at that
  moment. It returns the events emitted, in order, the watcher after the call, and the
  rejection of its promise if any. Everything after \<open>lstat\<close> is inside the same \<open>try\<close>: an
  exception of \<open>typeFromStat\<close>, of \<open>isIncluded\<close> or of a listener of the \<open>touch\<close> event is
  handled by the \<open>catch\<close> block like a failure of \<open>lstat\<close>, and the path is then not added
  to the tracked set.
\<close>

definition handleEvent ::
  "WatcherDeps \<Rightarrow> FSEventsWatcher \<Rightarrow> string \<Rightarrow> CaughtError + Stats \<Rightarrow>
   Emitted list \<times> FSEventsWatcher \<times> CaughtError option" where
  "handleEvent deps self filepath lstat =
     (let relativePath = relative deps (root self) filepath
      in case lstat of
           Inl error \<Rightarrow> handleCaught deps self filepath relativePath error
         | Inr stat \<Rightarrow>
             (case typeFromStat deps stat of
                Inl error \<Rightarrow> handleCaught deps self filepath relativePath error
              | Inr None \<Rightarrow> ([], self, None)
              | Inr (Some type) \<Rightarrow>
                  (if type = [] then ([], self, None)
                   else
                     (case isIncluded deps type (glob self) (dot self) (doIgnore self)
                             relativePath of
                        Inl error \<Rightarrow> handleCaught deps self filepath relativePath error
                      | Inr False \<Rightarrow> ([], self, None)
                      | Inr True \<Rightarrow>
                          (let touch = TouchEvent relativePath (root self)
                                 \<lparr>meta_type = type, modifiedTime = mtime stat,
                                  meta_size = stat_size stat\<rparr>
                           in case allListeners deps touch of
                                Some error \<Rightarrow>
                                  (case handleCaught deps self filepath relativePath error of
                                     (emitted, self', rejection) \<Rightarrow>
                                       (EmitAll touch # emitted, self', rejection))
                              | None \<Rightarrow>
                                  ([EmitAll touch],
                                   self\<lparr>tracked := insert filepath (tracked self)\<rparr>, None))))))"

subsection \<open>close\<close>

text \<open>
  Time is a virtual clock in milliseconds. An awaited promise fulfils or rejects after some
  delay, or never settles.
\<close>

datatype Awaited = Fulfils nat | RejectsWith nat string | NeverSettles

text \<open>The optional \<open>callback\<close> argument when it is a function: it returns or throws.\<close>

datatype Callback = CallbackReturns | CallbackThrows

text \<open>What happens during \<open>close\<close>, each stamped with the clock.\<close>

datatype CloseEvent =
  ReaddirAwaited
| WatchStopped
| ListenersRemoved
| TimerSet nat
| TimerFired
| CallbackCalled

datatype CloseResult = Resolved nat | Rejected nat string | Pending

text \<open>
  \<open>close(callback)\<close>, started at \<open>now\<close>: \<open>readdir\<close> is \<open>watcherInitialReaddirPromise\<close>,
  \<open>stopper\<close> the promise returned by \<open>fsEventsWatchStopper()\<close>, and \<open>lateness\<close> how long after
  its delay the timer of \<open>setTimeout(..., 100)\<close> fires (a timer never fires before its
  delay). An exception of the callback inside the timer leaves the promise pending. The
  constructor only ever resolves \<open>watcherInitialReaddirPromise\<close>; its rejection is a case
  here for the sake of totality.
\<close>

definition close ::
  "nat \<Rightarrow> Awaited \<Rightarrow> Awaited \<Rightarrow> Callback option \<Rightarrow> nat \<Rightarrow> CloseResult \<times> (nat \<times> CloseEvent) list" where
  "close now readdir stopper callback lateness =
     (case readdir of
        NeverSettles \<Rightarrow> (Pending, [])
      | RejectsWith d1 e \<Rightarrow> (Rejected (now + d1) e, [])
      | Fulfils d1 \<Rightarrow>
          (let t1 = now + d1; trace1 = [(t1, ReaddirAwaited)]
           in case stopper of
                NeverSettles \<Rightarrow> (Pending, trace1)
              | RejectsWith d2 e \<Rightarrow> (Rejected (t1 + d2) e, trace1)
              | Fulfils d2 \<Rightarrow>
                  (let t2 = t1 + d2;
                       trace2 = trace1 @ [(t2, WatchStopped), (t2, ListenersRemoved), (t2, TimerSet 100)];
                       t3 = t2 + 100 + lateness;
                       trace3 = trace2 @ [(t3, TimerFired)]
                   in case callback of
                        None \<Rightarrow> (Resolved t3, trace3)
                      | Some CallbackReturns \<Rightarrow> (Resolved t3, trace3 @ [(t3, CallbackCalled)])
                      | Some CallbackThrows \<Rightarrow> (Pending, trace3 @ [(t3, CallbackCalled)]))))"

section \<open>The layered transform cache\<close>

text \<open>
  What the \<open>get\<close> of a store does for a key: it returns a value or \<open>null\<close>/\<open>undefined\<close>
  (\<open>None\<close>), returns a promise of one, throws, or returns a promise that rejects.
\<close>

datatype 'v GetOutcome =
  GetReturns "'v option"
| GetPromise "'v option"
| GetThrows string
| GetRejects string

text \<open>What the \<open>set\<close> of a store does: the same four ways, without a value.\<close>

datatype SetOutcome =
  SetReturns
| SetResolves
| SetThrows string
| SetRejects string

text \<open>
  The \<open>CacheStore\<close> port: a store is known by its name and by what its \<open>get\<close> and \<open>set\<close> do.
  Keys are byte strings; a cache operation calls each method of a store at most once.
\<close>

record 'v CacheStore =
  store_name :: string
  store_get :: "string \<Rightarrow> 'v GetOutcome"
  store_set :: "string \<Rightarrow> 'v \<Rightarrow> SetOutcome"

text \<open>
  What is observed on the stores during an operation, in order: the call of the \<open>get\<close> of
  the store at an index, the wait for the promise it returned, the call of its \<open>set\<close>.
\<close>

datatype 'v StoreCall =
  GetCalled nat string
| GetAwaited nat
| SetCalled nat string 'v

text \<open>
  Modelled from the spec: the class \<open>Cache\<close> of the cache package is missing from the sources,
  only its tests are present (behind the type declarations in \<open>configTypes.d.ts\<close>). It holds
  the ordered list of stores of section 4.4. \<open>hits\<close> is not in the spec: it is what the test
  "skips all cache stores when a hit is produced, based on the same key" requires, the
  store that last produced a hit for a key, by its index.
\<close>

record 'v Cache =
  stores :: "'v CacheStore list"
  hits :: "string \<Rightarrow> nat option"

text \<open>The constructor: no hit is recorded.\<close>

definition newCache :: "'v CacheStore list \<Rightarrow> 'v Cache" where
  "newCache ss = \<lparr>stores = ss, hits = Map.empty\<rparr>"

text \<open>What a \<open>get\<close> of a store yields once it is settled: an error, or a value or \<open>null\<close>.\<close>

definition settled :: "'v GetOutcome \<Rightarrow> string + 'v option" where
  "settled outcome =
     (case outcome of
        GetReturns x \<Rightarrow> Inr x
      | GetPromise x \<Rightarrow> Inr x
      | GetThrows e \<Rightarrow> Inl e
      | GetRejects e \<Rightarrow> Inl e)"

text \<open>Whether the \<open>get\<close> of a store returned a promise, which is then awaited.\<close>

definition isPromise :: "'v GetOutcome \<Rightarrow> bool" where
  "isPromise outcome =
     (case outcome of GetPromise x \<Rightarrow> True | GetRejects e \<Rightarrow> True | _ \<Rightarrow> False)"

text \<open>Consulting the store at index \<open>i\<close>: its \<open>get\<close> is called, and awaited if it is a promise.\<close>

definition consult :: "nat \<Rightarrow> 'v CacheStore \<Rightarrow> string \<Rightarrow> 'v StoreCall list" where
  "consult i store k =
     GetCalled i k # (if isPromise (store_get store k) then [GetAwaited i] else [])"

text \<open>
  Modelled from the spec: the loop of \<open>get(key)\<close> of the missing class \<open>Cache\<close>, from the
  store at index \<open>i\<close> on. "Try stores in order"; "if a store returns a promise, await it
  before proceeding to the next"; "on any store error during get: propagate"; the first
  non-null result ends the loop, and \<open>null\<close> is the result when every store misses. The
  result of a hit comes with the index of the store that produced it.
\<close>

fun getFrom ::
  "nat \<Rightarrow> 'v CacheStore list \<Rightarrow> string \<Rightarrow> (string + ('v \<times> nat) option) \<times> 'v StoreCall list" where
  "getFrom i [] k = (Inr None, [])"
| "getFrom i (store # rest) k =
     (case settled (store_get store k) of
        Inl e \<Rightarrow> (Inl e, consult i store k)
      | Inr (Some v) \<Rightarrow> (Inr (Some (v, i)), consult i store k)
      | Inr None \<Rightarrow>
          (case getFrom (Suc i) rest k of (result, calls) \<Rightarrow> (result, consult i store k @ calls)))"

text \<open>
  Modelled from the spec: \<open>get(key)\<close> of the missing class \<open>Cache\<close>. The spec says that on a
  hit at index \<open>i\<close> the stores before \<open>i\<close> are back-filled by \<open>get\<close> itself. The test of the
  class "skips all cache stores when a hit is produced, based on the same key" (lines 345 to
  360 of \<open>configTypes.d.ts\<close>), which is source, runs \<open>get\<close> and \<open>set\<close> on the same key with
  the hit in the second of three stores, and expects one call of \<open>set\<close> on the first store
  and none on the second and third, with the comment that it is \<open>set\<close> that affects store 1
  only. Both cannot hold, and the model follows the test where they differ: \<open>get\<close> calls
  no \<open>set\<close>, and records the store of the hit for the key. The two operations are atomic
  here, one after the other, as they are in that test, and keys are compared by value.
\<close>

definition cacheGet ::
  "'v Cache \<Rightarrow> string \<Rightarrow> (string + 'v option) \<times> 'v StoreCall list \<times> 'v Cache" where
  "cacheGet cache k =
     (case getFrom 0 (stores cache) k of
        (Inl e, calls) \<Rightarrow> (Inl e, calls, cache)
      | (Inr None, calls) \<Rightarrow> (Inr None, calls, cache)
      | (Inr (Some (v, i)), calls) \<Rightarrow> (Inr (Some v), calls, cache\<lparr>hits := (hits cache)(k \<mapsto> i)\<rparr>))"

text \<open>The stores consulted one after the other, in index order from \<open>i\<close>.\<close>

fun consulted :: "nat \<Rightarrow> 'v CacheStore list \<Rightarrow> string \<Rightarrow> 'v StoreCall list" where
  "consulted i [] k = []"
| "consulted i (store # rest) k = consult i store k @ consulted (Suc i) rest k"


text \<open>
  One failed write, by the name of its store and its cause, and the error that aggregates
  the failed writes of one \<open>set\<close>.
\<close>

record WriteError =
  failed_store :: string
  write_cause :: string

record AggregateError =
  agg_message :: string
  agg_errors :: "WriteError list"

text \<open>
  Modelled from the spec: the stores that \<open>set(key, value)\<close> of the missing class \<open>Cache\<close>
  writes to. The spec says all stores; the test cited at \<open>cacheGet\<close> expects no write to the
  store that produced the hit for the key nor to the stores after it, and the model follows
  the test: the stores before the recorded hit, all of them when no hit is recorded.
\<close>

definition writtenStores :: "'v Cache \<Rightarrow> string \<Rightarrow> 'v CacheStore list" where
  "writtenStores cache k =
     (case hits cache k of None \<Rightarrow> stores cache | Some i \<Rightarrow> take i (stores cache))"

text \<open>
  The elements of a list in the order of their first occurrence, each once: what
  \<open>Array.from\<close> gives for a \<open>Set\<close> to which the elements were added in turn.
\<close>

definition insertionOrder :: "'a list \<Rightarrow> 'a list" where
  "insertionOrder xs = fold (\<lambda>x seen. if x \<in> set seen then seen else seen @ [x]) xs []"

text \<open>
  Modelled from the spec: \<open>set(key, value)\<close> of the missing class \<open>Cache\<close>. "Write to all
  stores in parallel": every write is started, in store order, whatever the others do.
  "Collect failures. If any failed, throw an aggregated error naming the stores that failed,
  preserving the individual causes." The failures are listed with the synchronous throws
  first and the rejections after them, and the message is the one that the test "throws all
  errors on a buggy store set" expects; the name of a store is given once in it, also when
  several failing stores have the same name.
\<close>

definition cacheSet ::
  "'v Cache \<Rightarrow> string \<Rightarrow> 'v \<Rightarrow> (AggregateError + unit) \<times> 'v StoreCall list" where
  "cacheSet cache k v =
     (let written = writtenStores cache k;
          calls = map (\<lambda>j. SetCalled j k v) [0..<length written];
          thrown = List.map_filter
            (\<lambda>s. case store_set s k v of
                    SetThrows e \<Rightarrow> Some \<lparr>failed_store = store_name s, write_cause = e\<rparr>
                  | _ \<Rightarrow> None) written;
          rejected = List.map_filter
            (\<lambda>s. case store_set s k v of
                    SetRejects e \<Rightarrow> Some \<lparr>failed_store = store_name s, write_cause = e\<rparr>
                  | _ \<Rightarrow> None) written;
          failures = thrown @ rejected
      in (if failures = [] then Inr ()
          else Inl \<lparr>agg_message = ''Cache write failed for store(s): '' @
                                    js_join '', '' (insertionOrder (map failed_store failures)),
                    agg_errors = failures\<rparr>,
          calls))"

section \<open>The constant folding pass\<close>

text \<open>
  The syntax trees that the pass rewrites, restricted to the kinds of nodes that the
  folding rules of section 4.5 and the scenarios use. A numeric literal has no sign (the
  sign is a unary operator) and is an integer here; \<open>undefined\<close> is kept as a literal of its
  own. The payload of an \<open>export default\<close> is opaque.
\<close>

datatype Literal =
  StringLiteral string
| NumericLiteral nat
| BooleanLiteral bool
| NullLiteral
| UndefinedLiteral

datatype BinaryOp = StrictEquals | StrictNotEquals | LooseEquals | LooseNotEquals | OtherBinary string

datatype LogicalOp = LogicalAnd | LogicalOr | NullishCoalescing

datatype UnaryOp = Not | Plus | Minus | Void

datatype Expr =
  Lit Literal
| Ident string
| ObjectExpression "(string \<times> Expr) list"
| BinaryExpression BinaryOp Expr Expr
| LogicalExpression LogicalOp Expr Expr
| UnaryExpression UnaryOp Expr
| ConditionalExpression Expr Expr Expr
| CallExpression Expr "Expr list"
| OptionalCallExpression Expr "Expr list"
| MemberExpression Expr string

datatype Stmt =
  VariableDeclaration string Expr
| ExpressionStatement Expr
| IfStatement Expr Stmt "Stmt option"
| BlockStatement "Stmt list"
| FunctionDeclaration string "string list" "Stmt list"
| ExportDefaultDeclaration string

text \<open>
  The values that the pass computes with.
\<close>

datatype JsValue = VString string | VNumber int | VBoolean bool | VNull | VUndefined

text \<open>
  The value of a literal, and the node that stands for a value: a negative number is the
  unary minus of a literal.
\<close>

definition valueOf :: "Literal \<Rightarrow> JsValue" where
  "valueOf l =
     (case l of
        StringLiteral s \<Rightarrow> VString s
      | NumericLiteral n \<Rightarrow> VNumber (int n)
      | BooleanLiteral b \<Rightarrow> VBoolean b
      | NullLiteral \<Rightarrow> VNull
      | UndefinedLiteral \<Rightarrow> VUndefined)"

definition valueToNode :: "JsValue \<Rightarrow> Expr" where
  "valueToNode v =
     (case v of
        VString s \<Rightarrow> Lit (StringLiteral s)
      | VNumber n \<Rightarrow>
          (if n < 0 then UnaryExpression Minus (Lit (NumericLiteral (nat (- n))))
           else Lit (NumericLiteral (nat n)))
      | VBoolean b \<Rightarrow> Lit (BooleanLiteral b)
      | VNull \<Rightarrow> Lit NullLiteral
      | VUndefined \<Rightarrow> Lit UndefinedLiteral)"

text \<open>
  JavaScript's \<open>ToBoolean\<close> on these values, and the test of \<open>??\<close>.
\<close>

definition truthy :: "JsValue \<Rightarrow> bool" where
  "truthy v =
     (case v of
        VString s \<Rightarrow> s \<noteq> []
      | VNumber n \<Rightarrow> n \<noteq> 0
      | VBoolean b \<Rightarrow> b
      | VNull \<Rightarrow> False
      | VUndefined \<Rightarrow> False)"

definition nullish :: "JsValue \<Rightarrow> bool" where
  "nullish v = (v = VNull \<or> v = VUndefined)"

text \<open>
  Modelled from the spec: "literal equality" of the folding pass of section 4.5, whose
  plugin (\<open>constant-folding-plugin.js\<close>) is missing from the sources. The strict operators
  compare the values; the loose ones are decided for two values of the same type and for
  \<open>null\<close> against \<open>undefined\<close>, and left alone where JavaScript would convert.
\<close>

definition sameType :: "JsValue \<Rightarrow> JsValue \<Rightarrow> bool" where
  "sameType v w =
     (case (v, w) of
        (VString a, VString b) \<Rightarrow> True
      | (VNumber a, VNumber b) \<Rightarrow> True
      | (VBoolean a, VBoolean b) \<Rightarrow> True
      | (VNull, VNull) \<Rightarrow> True
      | (VUndefined, VUndefined) \<Rightarrow> True
      | _ \<Rightarrow> False)"

definition evalBinary :: "BinaryOp \<Rightarrow> JsValue \<Rightarrow> JsValue \<Rightarrow> JsValue option" where
  "evalBinary op v w =
     (case op of
        StrictEquals \<Rightarrow> Some (VBoolean (v = w))
      | StrictNotEquals \<Rightarrow> Some (VBoolean (v \<noteq> w))
      | LooseEquals \<Rightarrow>
          (if sameType v w then Some (VBoolean (v = w))
           else if nullish v \<and> nullish w then Some (VBoolean True)
           else None)
      | LooseNotEquals \<Rightarrow>
          (if sameType v w then Some (VBoolean (v \<noteq> w))
           else if nullish v \<and> nullish w then Some (VBoolean False)
           else None)
      | OtherBinary operator \<Rightarrow> None)"

text \<open>
  Whether a logical operator yields its left operand, given the value of that operand.
\<close>

definition keepsLeft :: "LogicalOp \<Rightarrow> JsValue \<Rightarrow> bool" where
  "keepsLeft op v =
     (case op of
        LogicalAnd \<Rightarrow> \<not> truthy v
      | LogicalOr \<Rightarrow> truthy v
      | NullishCoalescing \<Rightarrow> \<not> nullish v)"

text \<open>
  Modelled from the spec: the statically known value of an expression in the folding pass
  of section 4.5, whose plugin (\<open>constant-folding-plugin.js\<close>) is missing from the sources
  (only its test is present). The spec lists what is evaluated: "literal equality, logical
  \<open>&&\<close>/\<open>||\<close>/\<open>??\<close>, unary \<open>!\<close>/\<open>+\<close>/\<open>-\<close>, ternary with literal test, \<open>void <literal>\<close>"; nothing
  else has a known value, in particular no call, optional call, identifier or \<open>void\<close> of a
  non-literal. The minus of zero has no known value, so that negative zero is never
  rewritten. Values reached through variable bindings are not in the spec's list and are
  not modelled.
\<close>

fun evaluate :: "Expr \<Rightarrow> JsValue option" where
  "evaluate (Lit l) = Some (valueOf l)"
| "evaluate (BinaryExpression op a b) =
     (case evaluate a of
        None \<Rightarrow> None
      | Some v \<Rightarrow> (case evaluate b of None \<Rightarrow> None | Some w \<Rightarrow> evalBinary op v w))"
| "evaluate (LogicalExpression op a b) =
     (case evaluate a of
        None \<Rightarrow> None
      | Some v \<Rightarrow> (if keepsLeft op v then Some v else evaluate b))"
| "evaluate (UnaryExpression Not a) = map_option (\<lambda>v. VBoolean (\<not> truthy v)) (evaluate a)"
| "evaluate (UnaryExpression Plus a) =
     (case evaluate a of Some (VNumber n) \<Rightarrow> Some (VNumber n) | _ \<Rightarrow> None)"
| "evaluate (UnaryExpression Minus a) =
     (case evaluate a of
        Some (VNumber n) \<Rightarrow> (if n = 0 then None else Some (VNumber (- n)))
      | _ \<Rightarrow> None)"
| "evaluate (UnaryExpression Void a) = (case a of Lit l \<Rightarrow> Some VUndefined | _ \<Rightarrow> None)"
| "evaluate (ConditionalExpression t a b) =
     (case evaluate t of
        None \<Rightarrow> None
      | Some v \<Rightarrow> (if truthy v then evaluate a else evaluate b))"
| "evaluate e = None"

text \<open>
  Modelled from the spec: the rewriting of expressions by the missing plugin, bottom-up. A
  ternary with a known test becomes the branch taken, a logical expression with a known
  left operand becomes the operand that decides it, an equality or a unary expression with
  a known value becomes the node of that value. A \<open>void\<close> of a literal becomes \<open>undefined\<close>
  and a \<open>void\<close> of anything else is not touched. An optional call stays an optional call.
\<close>

fun foldExpr :: "Expr \<Rightarrow> Expr" where
  "foldExpr (Lit l) = Lit l"
| "foldExpr (Ident x) = Ident x"
| "foldExpr (ObjectExpression props) = ObjectExpression (map (map_prod id foldExpr) props)"
| "foldExpr (BinaryExpression op a b) =
     (let e = BinaryExpression op (foldExpr a) (foldExpr b)
      in case evaluate e of Some v \<Rightarrow> valueToNode v | None \<Rightarrow> e)"
| "foldExpr (LogicalExpression op a b) =
     (let left = foldExpr a
      in case evaluate left of
           Some v \<Rightarrow> (if keepsLeft op v then left else foldExpr b)
         | None \<Rightarrow> LogicalExpression op left (foldExpr b))"
| "foldExpr (UnaryExpression op a) =
     (if op = Void then
        (case a of Lit l \<Rightarrow> Lit UndefinedLiteral | _ \<Rightarrow> UnaryExpression op a)
      else
        (let e = UnaryExpression op (foldExpr a)
         in case evaluate e of Some v \<Rightarrow> valueToNode v | None \<Rightarrow> e))"
| "foldExpr (ConditionalExpression t a b) =
     (let test = foldExpr t
      in case evaluate test of
           Some v \<Rightarrow> (if truthy v then foldExpr a else foldExpr b)
         | None \<Rightarrow> ConditionalExpression test (foldExpr a) (foldExpr b))"
| "foldExpr (CallExpression f args) = CallExpression (foldExpr f) (map foldExpr args)"
| "foldExpr (OptionalCallExpression f args) =
     OptionalCallExpression (foldExpr f) (map foldExpr args)"
| "foldExpr (MemberExpression obj p) = MemberExpression (foldExpr obj) p"

text \<open>
  Modelled from the spec: the rewriting of statements by the missing plugin; the result is
  the list of statements that replace the statement, empty when it is removed. "\<open>if\<close> with
  literal test": an \<open>if\<close> whose test has a known value becomes the branch taken, and is
  removed when that branch is a missing \<open>else\<close> ("eliminates dead branches"). An \<open>export
  default\<close> is never altered.
\<close>

fun foldStmt :: "Stmt \<Rightarrow> Stmt list" where
  "foldStmt (VariableDeclaration x e) = [VariableDeclaration x (foldExpr e)]"
| "foldStmt (ExpressionStatement e) = [ExpressionStatement (foldExpr e)]"
| "foldStmt (IfStatement t consequent alternate) =
     (let test = foldExpr t
      in case evaluate test of
           Some v \<Rightarrow>
             (if truthy v then foldStmt consequent
              else (case alternate of None \<Rightarrow> [] | Some alt \<Rightarrow> foldStmt alt))
         | None \<Rightarrow>
             [IfStatement test
                (case foldStmt consequent of [s] \<Rightarrow> s | ss \<Rightarrow> BlockStatement ss)
                (case alternate of
                   None \<Rightarrow> None
                 | Some alt \<Rightarrow> (case foldStmt alt of [] \<Rightarrow> None | [s] \<Rightarrow> Some s
                                | ss \<Rightarrow> Some (BlockStatement ss)))])"
| "foldStmt (BlockStatement body) = [BlockStatement (concat (map foldStmt body))]"
| "foldStmt (FunctionDeclaration f params body) =
     [FunctionDeclaration f params (concat (map foldStmt body))]"
| "foldStmt (ExportDefaultDeclaration d) = [ExportDefaultDeclaration d]"

text \<open>
  The identifiers that occur in an expression and in a statement.
\<close>

fun refsExpr :: "Expr \<Rightarrow> string list" where
  "refsExpr (Lit l) = []"
| "refsExpr (Ident x) = [x]"
| "refsExpr (ObjectExpression props) = concat (map (\<lambda>p. refsExpr (snd p)) props)"
| "refsExpr (BinaryExpression op a b) = refsExpr a @ refsExpr b"
| "refsExpr (LogicalExpression op a b) = refsExpr a @ refsExpr b"
| "refsExpr (UnaryExpression op a) = refsExpr a"
| "refsExpr (ConditionalExpression t a b) = refsExpr t @ refsExpr a @ refsExpr b"
| "refsExpr (CallExpression f args) = refsExpr f @ concat (map refsExpr args)"
| "refsExpr (OptionalCallExpression f args) = refsExpr f @ concat (map refsExpr args)"
| "refsExpr (MemberExpression obj p) = refsExpr obj"

fun refsStmt :: "Stmt \<Rightarrow> string list" where
  "refsStmt (VariableDeclaration x e) = refsExpr e"
| "refsStmt (ExpressionStatement e) = refsExpr e"
| "refsStmt (IfStatement t consequent alternate) =
     refsExpr t @ refsStmt consequent @
     (case alternate of None \<Rightarrow> [] | Some alt \<Rightarrow> refsStmt alt)"
| "refsStmt (BlockStatement body) = concat (map refsStmt body)"
| "refsStmt (FunctionDeclaration f params body) = concat (map refsStmt body)"
| "refsStmt (ExportDefaultDeclaration d) = []"

text \<open>
  Modelled from the spec: "eliminates ... unreferenced function declarations", for the
  declarations at the top of the program: a declaration whose name occurs nowhere in the
  program is removed, and this is repeated until nothing is removed (at most as many
  rounds as the first argument, the number of statements).
\<close>

fun isUnreferencedFunction :: "string list \<Rightarrow> Stmt \<Rightarrow> bool" where
  "isUnreferencedFunction refs (FunctionDeclaration f params body) = (f \<notin> set refs)"
| "isUnreferencedFunction refs s = False"

fun stripUnreferenced :: "nat \<Rightarrow> Stmt list \<Rightarrow> Stmt list" where
  "stripUnreferenced 0 program = program"
| "stripUnreferenced (Suc n) program =
     (let kept = filter (\<lambda>s. \<not> isUnreferencedFunction (concat (map refsStmt program)) s) program
      in if kept = program then program else stripUnreferenced n kept)"

text \<open>
  Modelled from the spec: the whole pass of the missing plugin on a program, the folding of
  every statement followed by the removal of the unreferenced function declarations.
\<close>

definition constantFoldingPlugin :: "Stmt list \<Rightarrow> Stmt list" where
  "constantFoldingPlugin program =
     (let folded = concat (map foldStmt program)
      in stripUnreferenced (length folded) folded)"

section \<open>Fixtures for concrete instances\<close>

text \<open>
  An environment whose resolver answers every request with the given outcome, whose origin
  files do not exist on disk, and whose path functions are the simplest possible.
\<close>

definition exampleEnv :: "(ResolverError + Resolution) \<Rightarrow> Env" where
  "exampleEnv outcome =
     \<lparr>resolve = (\<lambda>origin dependency allowHaste platform resolverOptions. outcome),
      formatFileCandidates =
        (\<lambda>c. case c of AssetCandidates n \<Rightarrow> n | SourceFileCandidates filePathPrefix exts \<Rightarrow> filePathPrefix),
      path_relative =
        (\<lambda>root p. if take (length root + 1) p = root @ ''/'' then drop (length root + 1) p else p),
      path_join = (\<lambda>a b. a @ ''/'' @ b),
      readFileSync = (\<lambda>p. Inl (FsError ''ENOENT'')),
      codeFrameColumns = (\<lambda>src location. ''<frame>'')\<rparr>"

definition exampleOptions :: Options where
  "exampleOptions = \<lparr>dirExists = (\<lambda>p. True), emptyModulePath = ''/p/empty.js'', projectRoot = ''/p''\<rparr>"

text \<open>The dependency \<open>./bar\<close> with the given recorded locations.\<close>

definition exampleDependency :: "BabelSourceLocation list \<Rightarrow> TransformResultDependency" where
  "exampleDependency ls =
     \<lparr>name = ''./bar'',
      data = \<lparr>key = ''./bar'', asyncType = None, isESMImport = False, locs = ls\<rparr>\<rparr>"

text \<open>
  As \<open>exampleEnv\<close>, but the resolver answers requests from \<open>/p/_\<close>, the fake module of
  the project root, with an outcome of their own.
\<close>

definition layeredEnv :: "(ResolverError + Resolution) \<Rightarrow> (ResolverError + Resolution) \<Rightarrow> Env" where
  "layeredEnv emptyModuleOutcome outcome =
     (exampleEnv outcome)
       \<lparr>resolve := (\<lambda>origin dependency allowHaste platform resolverOptions.
                     if origin = ''/p/_'' then emptyModuleOutcome else outcome)\<rparr>"

definition exampleRequest :: Request where
  "exampleRequest =
     \<lparr>req_origin = ''/p/src/foo.js'', req_dependency = exampleDependency [],
      req_allowHaste = True, req_platform = None, req_resolverOptions = \<lparr>dev = True\<rparr>\<rparr>"

text \<open>
  The scenario of the failure report: \<open>/p/src/foo.js\<close> holds one import of \<open>./bar\<close>,
  neither \<open>/p/src/bar.js\<close> nor \<open>/p/src/bar/index.js\<close> exists. The frame of
  \<open>readableEnv\<close> is the text of the source from the position it is given.
\<close>

definition fooSource :: string where
  "fooSource = ''import bar from '' @ [CHR 0x27] @ ''./bar'' @ [CHR 0x27] @ '';''"

definition readableEnv :: "(ResolverError + Resolution) \<Rightarrow> Env" where
  "readableEnv outcome =
     (exampleEnv outcome)
       \<lparr>readFileSync := (\<lambda>p. if p = ''/p/src/foo.js'' then Inr fooSource
                              else Inl (FsError ''ENOENT'')),
        codeFrameColumns := (\<lambda>src location.
          case js_at (js_split (CHR 0x0A) src) (line (frame_start location) - 1) of
            None \<Rightarrow> []
          | Some l \<Rightarrow> drop (nat (column (frame_start location) - 1)) l)\<rparr>"

definition barNotFound :: ResolverError where
  "barNotFound = FailedToResolvePathError
     \<lparr>candidates_file = Some (SourceFileCandidates ''/p/src/bar'' [''.js'']),
      candidates_dir = Some (SourceFileCandidates ''/p/src/bar/index'' [''.js''])\<rparr>"


text \<open>
  A watcher on \<open>/r\<close> that has seen \<open>/r/a.js\<close>, with helpers that accept every file and
  the given listeners of the \<open>all\<close> event.
\<close>

definition exampleDeps :: "(WatcherBackendChangeEvent \<Rightarrow> CaughtError option) \<Rightarrow> WatcherDeps" where
  "exampleDeps listeners =
     \<lparr>typeFromStat = (\<lambda>stat. Inr (if kind stat = ''file'' then Some ''f'' else None)),
      isIncluded = (\<lambda>type globs dotfiles ignore relativePath. Inr (\<not> ignore relativePath)),
      relative = (\<lambda>from p. if take (length from + 1) p = from @ ''/''
                              then drop (length from + 1) p else p),
      allListeners = listeners,
      errorListeners = (\<lambda>error. None)\<rparr>"

definition exampleWatcher :: FSEventsWatcher where
  "exampleWatcher =
     \<lparr>root = ''/r'', glob = [''**/*''], dot = False, doIgnore = (\<lambda>p. False),
      tracked = {''/r/a.js''}\<rparr>"

text \<open>A store with the given name whose \<open>get\<close> and \<open>set\<close> always do the same.\<close>

definition exampleStore :: "string \<Rightarrow> string GetOutcome \<Rightarrow> SetOutcome \<Rightarrow> string CacheStore" where
  "exampleStore n g s = \<lparr>store_name = n, store_get = (\<lambda>k. g), store_set = (\<lambda>k v. s)\<rparr>"

text \<open>The stores of the cache layering scenario, and of four tests of the class.\<close>

definition layeredStores :: "string CacheStore list" where
  "layeredStores =
     [exampleStore ''Local'' (GetReturns None) SetReturns,
      exampleStore ''Network'' (GetReturns (Some ''X'')) SetReturns]"



definition buggyGetStores :: "string CacheStore list" where
  "buggyGetStores =
     [exampleStore ''store1'' (GetReturns None) SetReturns,
      exampleStore ''store2'' (GetRejects ''TypeError: bar'') SetReturns]"

text \<open>
  Stores that answer with promises: a hit behind a promise in the second of three stores,
  misses only, and a store whose \<open>get\<close> throws after a store that was awaited.
\<close>

definition promisedHitStores :: "string CacheStore list" where
  "promisedHitStores =
     [exampleStore ''store1'' (GetPromise None) SetReturns,
      exampleStore ''store2'' (GetPromise (Some ''hit!'')) SetReturns,
      exampleStore ''store3'' (GetReturns None) SetReturns]"

definition promisedMissStores :: "string CacheStore list" where
  "promisedMissStores =
     [exampleStore ''store1'' (GetPromise None) SetReturns,
      exampleStore ''store2'' (GetReturns None) SetReturns]"

definition throwingGetStores :: "string CacheStore list" where
  "throwingGetStores =
     [exampleStore ''store1'' (GetPromise None) SetReturns,
      exampleStore ''store2'' (GetThrows ''TypeError: bar'') SetReturns,
      exampleStore ''store3'' (GetReturns (Some ''late'')) SetReturns]"

section \<open>The asset tie-break\<close>

lemma lowestLoop_fold: "lowestLoop acc xs = fold min xs acc"
  by (induction xs arbitrary: acc) (auto simp: min_def)

lemma getArrayLowestItem_Min: "a \<noteq> [] \<Longrightarrow> getArrayLowestItem a = Some (Min (set a))"
proof (cases a)
  case Nil
  assume "a \<noteq> []"
  with Nil show ?thesis by simp
next
  case (Cons x xs)
  have "lowestLoop x xs = Min (set (x # xs))"
    by (simp only: lowestLoop_fold Min.set_eq_fold)
  with Cons show ?thesis by simp
qed

text \<open>
  C4. Whenever the resolver answers with an \<open>assetFiles\<close> resolution whose list of paths is
  not empty, \<open>resolveDependency\<close> returns the \<open>sourceFile\<close> resolution of the least path of
  the list in the lexicographic order of strings (code unit by code unit, a proper prefix
  first), and leaves the instance as it was.
\<close>

theorem resolveDependency_assetFiles_lowest:
  assumes "resolve env origin dependency allowHaste platform resolverOptions
           = Inr (AssetFiles filePaths)"
    and "filePaths \<noteq> []"
  shows "resolveDependency (Suc fuel) env self origin dependency allowHaste platform
           resolverOptions
         = Some (Inr (BundlerSourceFile (Min (set filePaths))), self)"
  using assms by (simp add: getArrayLowestItem_Min)

theorem resolveDependency_assetFiles_lowest_witness:
  "resolveDependency (Suc 0) (exampleEnv (Inr (AssetFiles [''b.png'', ''a@2x.png'', ''a.png''])))
     (newModuleResolver (exampleEnv (Inr (AssetFiles [''b.png'', ''a@2x.png'', ''a.png''])))
        exampleOptions)
     ''/p/src/foo.js'' (exampleDependency []) True None \<lparr>dev = True\<rparr>
   = Some (Inr (BundlerSourceFile ''a.png''),
       newModuleResolver (exampleEnv (Inr (AssetFiles [''b.png'', ''a@2x.png'', ''a.png''])))
         exampleOptions)"
proof -
  have r: "resolve (exampleEnv (Inr (AssetFiles [''b.png'', ''a@2x.png'', ''a.png''])))
             ''/p/src/foo.js'' (exampleDependency []) True None \<lparr>dev = True\<rparr>
           = Inr (AssetFiles [''b.png'', ''a@2x.png'', ''a.png''])"
    by (simp add: exampleEnv_def)
  have m: "Min (set [''b.png'', ''a@2x.png'', ''a.png'']) = ''a.png''"
    by simp
  show ?thesis
    using resolveDependency_assetFiles_lowest [OF r, of 0] m by simp
qed

section \<open>The empty module\<close>

lemma concrete_getFileResolvedModule:
  "concreteResolution r = Some m \<Longrightarrow> getFileResolvedModule fuel env self r = Some (Inr m, self)"
  by (cases r) (auto simp: concreteResolution_def split: option.splits)

lemma resolveDependency_empty_cached:
  assumes "resolve env origin dependency allowHaste platform resolverOptions = Inr Empty"
    and "cachedEmptyModule self = Some c"
  shows "resolveDependency (Suc fuel) env self origin dependency allowHaste platform
           resolverOptions = Some (Inr c, self)"
  using assms by simp

lemma resolveDependency_empty_first:
  assumes "resolve env origin dependency allowHaste platform resolverOptions = Inr Empty"
    and "cachedEmptyModule self = None"
    and "resolve env (projectRootFakeModulePath self) (emptyModuleDependency (options self))
           False None \<lparr>dev = False\<rparr> = Inr r"
    and "concreteResolution r = Some m"
  shows "resolveDependency (Suc (Suc fuel)) env self origin dependency allowHaste platform
           resolverOptions
         = Some (Inr m, self\<lparr>emptyModuleComputations := Suc (emptyModuleComputations self),
                              cachedEmptyModule := Some m\<rparr>)"
  using assms by (simp add: concrete_getFileResolvedModule)

lemma resolveDependency_not_empty:
  assumes "resolve env origin dependency allowHaste platform resolverOptions \<noteq> Inr Empty"
  shows "\<exists>res. resolveDependency (Suc fuel) env self origin dependency allowHaste platform
           resolverOptions = Some (res, self)"
proof (cases "resolve env origin dependency allowHaste platform resolverOptions")
  case (Inl e)
  then show ?thesis by simp
next
  case (Inr r)
  with assms show ?thesis by (cases r) (auto split: option.splits)
qed

lemma resolveMany_invariant:
  assumes fake: "resolve env (projectRootFakeModulePath self) (emptyModuleDependency (options self))
           False None \<lparr>dev = False\<rparr> = Inr r"
    and conc: "concreteResolution r = Some m"
    and inv: "emptyModuleState m self"
  shows "\<exists>results self'.
           resolveMany (Suc (Suc fuel)) env self requests = Some (results, self') \<and>
           length results = length requests \<and>
           emptyModuleState m self' \<and>
           (\<forall>i < length requests.
              resolverAnswer env (requests ! i) = Inr Empty \<longrightarrow> results ! i = Inr m)"
  using fake inv
proof (induction requests arbitrary: self)
  case Nil
  then show ?case by simp
next
  case (Cons q qs)
  let ?call = "resolveDependency (Suc (Suc fuel)) env self (req_origin q) (req_dependency q)
                 (req_allowHaste q) (req_platform q) (req_resolverOptions q)"
  have step: "\<exists>res self1. ?call = Some (res, self1) \<and> emptyModuleState m self1 \<and>
                projectRootFakeModulePath self1 = projectRootFakeModulePath self \<and>
                options self1 = options self \<and>
                (resolverAnswer env q = Inr Empty \<longrightarrow> res = Inr m)"
  proof (cases "resolverAnswer env q = Inr Empty")
    case True
    then have e: "resolve env (req_origin q) (req_dependency q) (req_allowHaste q) (req_platform q)
                    (req_resolverOptions q) = Inr Empty"
      by (simp add: resolverAnswer_def)
    show ?thesis
    proof (cases "cachedEmptyModule self")
      case None
      with Cons.prems(2) have "emptyModuleComputations self = 0"
        by (simp add: emptyModuleState_def)
      with resolveDependency_empty_first [OF e None Cons.prems(1) conc, of fuel]
      show ?thesis by (simp add: emptyModuleState_def)
    next
      case (Some c)
      with Cons.prems(2) have "c = m" by (simp add: emptyModuleState_def)
      with resolveDependency_empty_cached [OF e Some, of "Suc fuel"] Cons.prems(2)
      show ?thesis by simp
    qed
  next
    case False
    then have "resolve env (req_origin q) (req_dependency q) (req_allowHaste q) (req_platform q)
                 (req_resolverOptions q) \<noteq> Inr Empty"
      by (simp add: resolverAnswer_def)
    from resolveDependency_not_empty [OF this, of "Suc fuel" self] False Cons.prems(2)
    show ?thesis by auto
  qed
  then obtain res self1 where call: "?call = Some (res, self1)"
    and inv1: "emptyModuleState m self1"
    and same: "projectRootFakeModulePath self1 = projectRootFakeModulePath self"
      "options self1 = options self"
    and res: "resolverAnswer env q = Inr Empty \<longrightarrow> res = Inr m"
    by blast
  from Cons.prems(1) same
  have fake1: "resolve env (projectRootFakeModulePath self1) (emptyModuleDependency (options self1))
                 False None \<lparr>dev = False\<rparr> = Inr r"
    by simp
  from Cons.IH [OF fake1 inv1] obtain rs self2 where
    rest: "resolveMany (Suc (Suc fuel)) env self1 qs = Some (rs, self2)"
    and len: "length rs = length qs"
    and inv2: "emptyModuleState m self2"
    and all: "\<forall>i < length qs. resolverAnswer env (qs ! i) = Inr Empty \<longrightarrow> rs ! i = Inr m"
    by blast
  have "resolveMany (Suc (Suc fuel)) env self (q # qs) = Some (res # rs, self2)"
    using call rest by simp
  moreover have "\<forall>i < length (q # qs).
      resolverAnswer env ((q # qs) ! i) = Inr Empty \<longrightarrow> (res # rs) ! i = Inr m"
    using res all by (auto simp: nth_Cons split: nat.splits)
  ultimately show ?case using len inv2 by simp
qed

text \<open>
  When the resolver answers \<open>empty\<close> for the empty module itself, \<open>_getEmptyModule\<close> calls
  itself without end: no depth of calls is enough for it to return.
\<close>

lemma empty_module_of_itself_never_returns:
  assumes "resolve env (projectRootFakeModulePath self) (emptyModuleDependency (options self))
             False None \<lparr>dev = False\<rparr> = Inr Empty"
    and "cachedEmptyModule self = None"
  shows "getEmptyModule fuel env self = None"
  using assms
proof (induction fuel arbitrary: self)
  case 0
  then show ?case by simp
next
  case (Suc n)
  let ?self = "self\<lparr>emptyModuleComputations := Suc (emptyModuleComputations self)\<rparr>"
  have "getEmptyModule n env ?self = None"
    by (rule Suc.IH) (use Suc.prems in simp_all)
  with Suc.prems show ?case by simp
qed

lemma resolveDependency_empty_throws:
  assumes "resolve env origin dependency allowHaste platform resolverOptions = Inr Empty"
    and "cachedEmptyModule self = None"
    and "resolve env (projectRootFakeModulePath self) (emptyModuleDependency (options self))
           False None \<lparr>dev = False\<rparr> = Inl error"
  shows "resolveDependency (Suc (Suc fuel)) env self origin dependency allowHaste platform
           resolverOptions
         = Some (Inl (catchResolverError env (options self) (projectRootFakeModulePath self)
                        (emptyModuleDependency (options self)) error),
                 self\<lparr>emptyModuleComputations := Suc (emptyModuleComputations self)\<rparr>)"
  using assms by simp

lemma resolveMany_throwing:
  assumes fake: "resolve env (projectRootFakeModulePath self) (emptyModuleDependency (options self))
           False None \<lparr>dev = False\<rparr> = Inl error"
    and none: "cachedEmptyModule self = None"
  shows "\<exists>results self'.
           resolveMany (Suc (Suc fuel)) env self requests = Some (results, self') \<and>
           length results = length requests \<and>
           cachedEmptyModule self' = None \<and>
           projectRootFakeModulePath self' = projectRootFakeModulePath self \<and>
           options self' = options self \<and>
           emptyModuleComputations self' =
             emptyModuleComputations self +
             length (filter (\<lambda>q. resolverAnswer env q = Inr Empty) requests) \<and>
           (\<forall>i < length requests.
              resolverAnswer env (requests ! i) = Inr Empty \<longrightarrow>
              results ! i = Inl (catchResolverError env (options self)
                                   (projectRootFakeModulePath self)
                                   (emptyModuleDependency (options self)) error))"
  using fake none
proof (induction requests arbitrary: self)
  case Nil
  then show ?case by simp
next
  case (Cons q qs)
  let ?call = "resolveDependency (Suc (Suc fuel)) env self (req_origin q) (req_dependency q)
                 (req_allowHaste q) (req_platform q) (req_resolverOptions q)"
  let ?thrown = "Inl (catchResolverError env (options self) (projectRootFakeModulePath self)
                        (emptyModuleDependency (options self)) error)"
  let ?n = "\<lambda>qs. length (filter (\<lambda>q. resolverAnswer env q = Inr Empty) qs)"
  have step: "\<exists>res self1. ?call = Some (res, self1) \<and> cachedEmptyModule self1 = None \<and>
                projectRootFakeModulePath self1 = projectRootFakeModulePath self \<and>
                options self1 = options self \<and>
                emptyModuleComputations self1 = emptyModuleComputations self + ?n [q] \<and>
                (resolverAnswer env q = Inr Empty \<longrightarrow> res = ?thrown)"
  proof (cases "resolverAnswer env q = Inr Empty")
    case True
    then have e: "resolve env (req_origin q) (req_dependency q) (req_allowHaste q) (req_platform q)
                    (req_resolverOptions q) = Inr Empty"
      by (simp add: resolverAnswer_def)
    from resolveDependency_empty_throws [OF e Cons.prems(2) Cons.prems(1), of fuel] True
      Cons.prems(2)
    show ?thesis by simp
  next
    case False
    then have "resolve env (req_origin q) (req_dependency q) (req_allowHaste q) (req_platform q)
                 (req_resolverOptions q) \<noteq> Inr Empty"
      by (simp add: resolverAnswer_def)
    from resolveDependency_not_empty [OF this, of "Suc fuel" self] False Cons.prems(2)
    show ?thesis by auto
  qed
  then obtain res self1 where call: "?call = Some (res, self1)"
    and none1: "cachedEmptyModule self1 = None"
    and same: "projectRootFakeModulePath self1 = projectRootFakeModulePath self"
      "options self1 = options self"
    and count1: "emptyModuleComputations self1 = emptyModuleComputations self + ?n [q]"
    and res: "resolverAnswer env q = Inr Empty \<longrightarrow> res = ?thrown"
    by blast
  from Cons.prems(1) same
  have fake1: "resolve env (projectRootFakeModulePath self1) (emptyModuleDependency (options self1))
                 False None \<lparr>dev = False\<rparr> = Inl error"
    by simp
  from Cons.IH [OF fake1 none1] same obtain rs self2 where
    rest: "resolveMany (Suc (Suc fuel)) env self1 qs = Some (rs, self2)"
    and len: "length rs = length qs"
    and none2: "cachedEmptyModule self2 = None"
    and same2: "projectRootFakeModulePath self2 = projectRootFakeModulePath self"
      "options self2 = options self"
    and count2: "emptyModuleComputations self2 = emptyModuleComputations self1 + ?n qs"
    and all: "\<forall>i < length qs. resolverAnswer env (qs ! i) = Inr Empty \<longrightarrow> rs ! i = ?thrown"
    by auto
  have run: "resolveMany (Suc (Suc fuel)) env self (q # qs) = Some (res # rs, self2)"
    using call rest by simp
  have each: "\<forall>i < length (q # qs).
      resolverAnswer env ((q # qs) ! i) = Inr Empty \<longrightarrow> (res # rs) ! i = ?thrown"
    using res all by (auto simp: nth_Cons split: nat.splits)
  have count: "emptyModuleComputations self2 = emptyModuleComputations self + ?n (q # qs)"
    using count1 count2 by simp
  from run each count len none2 same2 show ?case by simp
qed

text \<open>
  C10 (amended). Take any sequence of requests on a new instance. If resolving
  \<open>emptyModulePath\<close> from the fake module path of the project root gives a \<open>sourceFile\<close>
  resolution or a non-empty \<open>assetFiles\<close> resolution, coerced to \<open>m\<close>, then each call
  returns or throws, every request the resolver answers with \<open>empty\<close> returns \<open>m\<close>, and
  the empty module was computed at most once. If resolving \<open>emptyModulePath\<close> throws, then
  each call returns or throws, every request the resolver answers with \<open>empty\<close> throws what
  \<open>resolveDependency\<close> throws for the empty module, nothing is cached, and the empty module
  was computed once for each of these requests.
\<close>

theorem empty_module_computed_once:
  "(\<forall>r m. resolve env (path_join env (projectRoot opts) ''_'') (emptyModuleDependency opts)
             False None \<lparr>dev = False\<rparr> = Inr r \<and>
          concreteResolution r = Some m \<longrightarrow>
     (\<exists>results self'.
           resolveMany (Suc (Suc fuel)) env (newModuleResolver env opts) requests
             = Some (results, self') \<and>
           length results = length requests \<and>
           emptyModuleComputations self' \<le> 1 \<and>
           (\<forall>i < length requests.
              resolverAnswer env (requests ! i) = Inr Empty \<longrightarrow> results ! i = Inr m))) \<and>
   (\<forall>error. resolve env (path_join env (projectRoot opts) ''_'') (emptyModuleDependency opts)
             False None \<lparr>dev = False\<rparr> = Inl error \<longrightarrow>
     (\<exists>results self'.
           resolveMany (Suc (Suc fuel)) env (newModuleResolver env opts) requests
             = Some (results, self') \<and>
           length results = length requests \<and>
           cachedEmptyModule self' = None \<and>
           emptyModuleComputations self' =
             length (filter (\<lambda>q. resolverAnswer env q = Inr Empty) requests) \<and>
           (\<forall>i < length requests.
              resolverAnswer env (requests ! i) = Inr Empty \<longrightarrow>
              results ! i = Inl (catchResolverError env opts (path_join env (projectRoot opts) ''_'')
                                   (emptyModuleDependency opts) error))))"
proof -
  let ?new = "newModuleResolver env opts"
  have new: "projectRootFakeModulePath ?new = path_join env (projectRoot opts) ''_''"
    "options ?new = opts" "cachedEmptyModule ?new = None" "emptyModuleComputations ?new = 0"
    by (simp_all add: newModuleResolver_def)
  have first: "\<exists>results self'.
           resolveMany (Suc (Suc fuel)) env ?new requests = Some (results, self') \<and>
           length results = length requests \<and>
           emptyModuleComputations self' \<le> 1 \<and>
           (\<forall>i < length requests.
              resolverAnswer env (requests ! i) = Inr Empty \<longrightarrow> results ! i = Inr m)"
    if "resolve env (path_join env (projectRoot opts) ''_'') (emptyModuleDependency opts)
             False None \<lparr>dev = False\<rparr> = Inr r \<and> concreteResolution r = Some m" for r m
  proof -
    from that have fake: "resolve env (projectRootFakeModulePath ?new)
                (emptyModuleDependency (options ?new)) False None \<lparr>dev = False\<rparr> = Inr r"
      and conc: "concreteResolution r = Some m"
      by (simp_all add: new)
    have inv: "emptyModuleState m ?new"
      by (simp add: emptyModuleState_def new)
    from resolveMany_invariant [OF fake conc inv, of fuel requests]
    obtain results self' where
      "resolveMany (Suc (Suc fuel)) env ?new requests = Some (results, self')"
      "length results = length requests"
      "emptyModuleState m self'"
      "\<forall>i < length requests. resolverAnswer env (requests ! i) = Inr Empty \<longrightarrow> results ! i = Inr m"
      by blast
    moreover from \<open>emptyModuleState m self'\<close> have "emptyModuleComputations self' \<le> 1"
      by (auto simp: emptyModuleState_def)
    ultimately show ?thesis by blast
  qed
  have second: "\<exists>results self'.
           resolveMany (Suc (Suc fuel)) env ?new requests = Some (results, self') \<and>
           length results = length requests \<and>
           cachedEmptyModule self' = None \<and>
           emptyModuleComputations self' =
             length (filter (\<lambda>q. resolverAnswer env q = Inr Empty) requests) \<and>
           (\<forall>i < length requests.
              resolverAnswer env (requests ! i) = Inr Empty \<longrightarrow>
              results ! i = Inl (catchResolverError env opts (path_join env (projectRoot opts) ''_'')
                                   (emptyModuleDependency opts) error))"
    if "resolve env (path_join env (projectRoot opts) ''_'') (emptyModuleDependency opts)
             False None \<lparr>dev = False\<rparr> = Inl error" for error
  proof -
    from that have fake: "resolve env (projectRootFakeModulePath ?new)
                (emptyModuleDependency (options ?new)) False None \<lparr>dev = False\<rparr> = Inl error"
      by (simp add: new)
    from resolveMany_throwing [OF fake new(3), of fuel requests]
    show ?thesis unfolding new by auto
  qed
  from first second show ?thesis by blast
qed

theorem empty_module_computed_once_witness:
  "(\<exists>self'.
     resolveMany (Suc (Suc 0)) (layeredEnv (Inr (SourceFile ''/p/empty.js'')) (Inr Empty))
       (newModuleResolver (layeredEnv (Inr (SourceFile ''/p/empty.js'')) (Inr Empty)) exampleOptions)
       [exampleRequest, exampleRequest]
     = Some ([Inr (BundlerSourceFile ''/p/empty.js''), Inr (BundlerSourceFile ''/p/empty.js'')], self')
     \<and> emptyModuleComputations self' \<le> 1) \<and>
   (\<exists>thrown self'.
     resolveMany (Suc (Suc 0)) (layeredEnv (Inl (FailedToResolveNameError [] [])) (Inr Empty))
       (newModuleResolver (layeredEnv (Inl (FailedToResolveNameError [] [])) (Inr Empty))
          exampleOptions)
       [exampleRequest, exampleRequest]
     = Some ([Inl thrown, Inl thrown], self')
     \<and> cachedEmptyModule self' = None \<and> emptyModuleComputations self' = 2)"
proof -
  let ?env = "layeredEnv (Inr (SourceFile ''/p/empty.js'')) (Inr Empty)"
  have a: "resolve ?env (path_join ?env (projectRoot exampleOptions) ''_'')
             (emptyModuleDependency exampleOptions) False None \<lparr>dev = False\<rparr>
           = Inr (SourceFile ''/p/empty.js'') \<and>
           concreteResolution (SourceFile ''/p/empty.js'') = Some (BundlerSourceFile ''/p/empty.js'')"
    by (simp add: layeredEnv_def exampleEnv_def exampleOptions_def concreteResolution_def)
  have c: "resolverAnswer ?env exampleRequest = Inr Empty"
    by (simp add: resolverAnswer_def layeredEnv_def exampleEnv_def exampleRequest_def)
  from empty_module_computed_once [of ?env exampleOptions 0 "[exampleRequest, exampleRequest]"] a
  obtain results self' where
    run: "resolveMany (Suc (Suc 0)) ?env (newModuleResolver ?env exampleOptions)
            [exampleRequest, exampleRequest] = Some (results, self')"
    and len: "length results = length [exampleRequest, exampleRequest]"
    and once: "emptyModuleComputations self' \<le> 1"
    and all: "\<forall>i < length [exampleRequest, exampleRequest].
                resolverAnswer ?env ([exampleRequest, exampleRequest] ! i) = Inr Empty
                \<longrightarrow> results ! i = Inr (BundlerSourceFile ''/p/empty.js'')"
    by blast
  from all c have r0: "results ! 0 = Inr (BundlerSourceFile ''/p/empty.js'')"
    and r1: "results ! 1 = Inr (BundlerSourceFile ''/p/empty.js'')"
    by (auto simp: nth_Cons)
  from len obtain x y where xy: "results = [x, y]"
    by (cases results; cases "tl results"; auto)
  with r0 r1 have "results = [Inr (BundlerSourceFile ''/p/empty.js''), Inr (BundlerSourceFile ''/p/empty.js'')]"
    by simp
  with run once have one: "\<exists>self'.
     resolveMany (Suc (Suc 0)) ?env (newModuleResolver ?env exampleOptions)
       [exampleRequest, exampleRequest]
     = Some ([Inr (BundlerSourceFile ''/p/empty.js''), Inr (BundlerSourceFile ''/p/empty.js'')], self')
     \<and> emptyModuleComputations self' \<le> 1"
    by blast
  let ?bad = "layeredEnv (Inl (FailedToResolveNameError [] [])) (Inr Empty)"
  let ?thrown = "catchResolverError ?bad exampleOptions (path_join ?bad (projectRoot exampleOptions) ''_'')
                   (emptyModuleDependency exampleOptions) (FailedToResolveNameError [] [])"
  have a': "resolve ?bad (path_join ?bad (projectRoot exampleOptions) ''_'')
             (emptyModuleDependency exampleOptions) False None \<lparr>dev = False\<rparr>
           = Inl (FailedToResolveNameError [] [])"
    by (simp add: layeredEnv_def exampleEnv_def exampleOptions_def)
  have c': "resolverAnswer ?bad exampleRequest = Inr Empty"
    by (simp add: resolverAnswer_def layeredEnv_def exampleEnv_def exampleRequest_def)
  from empty_module_computed_once [of ?bad exampleOptions 0 "[exampleRequest, exampleRequest]"] a'
  obtain results' self'' where
    run': "resolveMany (Suc (Suc 0)) ?bad (newModuleResolver ?bad exampleOptions)
            [exampleRequest, exampleRequest] = Some (results', self'')"
    and len': "length results' = length [exampleRequest, exampleRequest]"
    and none': "cachedEmptyModule self'' = None"
    and count': "emptyModuleComputations self'' =
             length (filter (\<lambda>q. resolverAnswer ?bad q = Inr Empty) [exampleRequest, exampleRequest])"
    and all': "\<forall>i < length [exampleRequest, exampleRequest].
                resolverAnswer ?bad ([exampleRequest, exampleRequest] ! i) = Inr Empty
                \<longrightarrow> results' ! i = Inl ?thrown"
    by blast
  from all' c' have r0': "results' ! 0 = Inl ?thrown" and r1': "results' ! 1 = Inl ?thrown"
    by (auto simp: nth_Cons)
  from len' obtain x' y' where "results' = [x', y']"
    by (cases results'; cases "tl results'"; auto)
  with r0' r1' have "results' = [Inl ?thrown, Inl ?thrown]"
    by simp
  moreover from count' c' have "emptyModuleComputations self'' = 2" by simp
  ultimately have two: "\<exists>thrown self'.
     resolveMany (Suc (Suc 0)) ?bad (newModuleResolver ?bad exampleOptions)
       [exampleRequest, exampleRequest]
     = Some ([Inl thrown, Inl thrown], self')
     \<and> cachedEmptyModule self' = None \<and> emptyModuleComputations self' = 2"
    using run' none' by blast
  from one two show ?thesis by (rule conjI)
qed

text \<open>
  C10 as stated fails when the empty module itself cannot be resolved: both \<open>empty\<close>
  resolutions below throw instead of returning a resolution, nothing is cached, and the
  empty module is computed twice on the same instance.
\<close>

theorem empty_module_recomputed_counterexample:
  "resolveMany (Suc (Suc 0)) (layeredEnv (Inl (FailedToResolveNameError [] [])) (Inr Empty))
     (newModuleResolver (layeredEnv (Inl (FailedToResolveNameError [] [])) (Inr Empty))
        exampleOptions)
     [exampleRequest, exampleRequest]
   = Some
      ([Inl (ThrownUnableToResolve
               \<lparr>originModulePath = ''/p/_'', targetModuleName = ''/p/empty.js'',
                message = ''Unable to resolve module /p/empty.js from /p/_: /p/empty.js could not be found within the project.'',
                cause = Some (FailedToResolveNameError [] [])\<rparr>),
        Inl (ThrownUnableToResolve
               \<lparr>originModulePath = ''/p/_'', targetModuleName = ''/p/empty.js'',
                message = ''Unable to resolve module /p/empty.js from /p/_: /p/empty.js could not be found within the project.'',
                cause = Some (FailedToResolveNameError [] [])\<rparr>)],
       (newModuleResolver (layeredEnv (Inl (FailedToResolveNameError [] [])) (Inr Empty))
          exampleOptions)
         \<lparr>emptyModuleComputations := 2\<rparr>)"
  by (simp add: layeredEnv_def exampleEnv_def exampleOptions_def exampleRequest_def
      exampleDependency_def newModuleResolver_def emptyModuleDependency_def
      catchResolverError_def newUnableToResolveError_def buildCodeFrameMessage_def
      nameErrorMessage_def)

section \<open>Resolver failures\<close>













text \<open>
  The \<open>TypeError\<close> does occur: the recorded location below ends on line 3 of a file of one
  line.
\<close>

lemma location_beyond_file_throws_TypeError:
  "resolveDependency (Suc 0) (readableEnv (Inl barNotFound))
     (newModuleResolver (readableEnv (Inl barNotFound)) exampleOptions)
     ''/p/src/foo.js''
     (exampleDependency [\<lparr>loc_start = \<lparr>line = 1, column = 0\<rparr>,
                          loc_end = \<lparr>line = 3, column = 0\<rparr>\<rparr>])
     True None \<lparr>dev = True\<rparr>
   = Some (Inl ThrownTypeError, newModuleResolver (readableEnv (Inl barNotFound)) exampleOptions)"
proof -
  have "refineLines (js_split (CHR 0x0A) fooSource)
          \<lparr>loc_start = \<lparr>line = 1, column = 0\<rparr>, loc_end = \<lparr>line = 3, column = 0\<rparr>\<rparr> ''./bar'' 2
        = None"
    by (subst refineLines.simps) (simp add: fooSource_def js_at_def)
  then show ?thesis
    by (simp add: readableEnv_def exampleEnv_def exampleOptions_def exampleDependency_def
        barNotFound_def newModuleResolver_def catchResolverError_def newUnableToResolveError_def
        buildCodeFrameMessage_def dependencyLocation_def refineDependencyLocation_def)
qed


section \<open>The watcher\<close>

lemma handleCaught_delete:
  "EmitAll (DeleteEvent rel r) \<in> set (fst (handleCaught deps self filepath relativePath error))
   \<Longrightarrow> filepath \<in> tracked self \<and> rel = relativePath"
  by (auto simp: handleCaught_def split: if_splits option.splits)

text \<open>
  C8. A \<open>delete\<close> event is emitted by \<open>_handleEvent\<close> only for a path that is in the tracked
  set, and it carries that path relative to the root; this holds on every path through the
  \<open>catch\<close> block, also when the block is entered by an exception thrown after \<open>lstat\<close>
  succeeded. When \<open>lstat\<close> fails with \<open>ENOENT\<close> on a path that is not tracked, nothing is
  emitted, neither a \<open>delete\<close> nor an \<open>error\<close>, the watcher is unchanged and the promise
  resolves.
\<close>

theorem delete_only_for_tracked:
  "(EmitAll (DeleteEvent rel r) \<in> set (fst (handleEvent deps self filepath lstat))
      \<longrightarrow> filepath \<in> tracked self \<and> rel = relative deps (root self) filepath) \<and>
   (lstat = Inl error \<and> error_code error = Some ''ENOENT'' \<and> filepath \<notin> tracked self
      \<longrightarrow> handleEvent deps self filepath lstat = ([], self, None))"
proof -
  let ?rel = "relative deps (root self) filepath"
  have caught: "filepath \<in> tracked self \<and> rel = ?rel"
    if "handleCaught deps self filepath ?rel error' = (emitted, self', rejection)"
      and "EmitAll (DeleteEvent rel r) \<in> set emitted"
    for error' emitted self' rejection
    using that handleCaught_delete [of rel r deps self filepath ?rel error'] by simp
  have first: "filepath \<in> tracked self \<and> rel = ?rel"
    if "EmitAll (DeleteEvent rel r) \<in> set (fst (handleEvent deps self filepath lstat))"
    using that
    by (auto simp: handleEvent_def Let_def
        split: sum.splits option.splits if_splits bool.splits prod.splits
        dest: handleCaught_delete caught)
  have second: "handleEvent deps self filepath lstat = ([], self, None)"
    if "lstat = Inl error \<and> error_code error = Some ''ENOENT'' \<and> filepath \<notin> tracked self"
    using that by (simp add: handleEvent_def handleCaught_def)
  from first second show ?thesis by blast
qed

theorem delete_only_for_tracked_witness:
  "EmitAll (DeleteEvent ''a.js'' ''/r'')
     \<in> set (fst (handleEvent (exampleDeps (\<lambda>event. None)) exampleWatcher ''/r/a.js''
                    (Inl (CaughtError (Some ''ENOENT''))))) \<and>
   ''/r/a.js'' \<in> tracked exampleWatcher \<and>
   ''/r/b.js'' \<notin> tracked exampleWatcher \<and>
   handleEvent (exampleDeps (\<lambda>event. None)) exampleWatcher ''/r/b.js''
     (Inl (CaughtError (Some ''ENOENT'')))
     = ([], exampleWatcher, None)"
proof -
  let ?deps = "exampleDeps (\<lambda>event. None)"
  have emitted: "EmitAll (DeleteEvent ''a.js'' ''/r'')
     \<in> set (fst (handleEvent ?deps exampleWatcher ''/r/a.js''
                    (Inl (CaughtError (Some ''ENOENT'')))))"
    by (simp add: handleEvent_def handleCaught_def exampleDeps_def exampleWatcher_def)
  have untracked: "''/r/b.js'' \<notin> tracked exampleWatcher"
    by (simp add: exampleWatcher_def)
  from delete_only_for_tracked [of "''a.js''" "''/r''" ?deps exampleWatcher "''/r/a.js''"
      "Inl (CaughtError (Some ''ENOENT''))"] emitted
  have "''/r/a.js'' \<in> tracked exampleWatcher" by blast
  moreover
  from delete_only_for_tracked [of "''b.js''" "''/r''" ?deps exampleWatcher "''/r/b.js''"
      "Inl (CaughtError (Some ''ENOENT''))" "CaughtError (Some ''ENOENT'')"] untracked
  have "handleEvent ?deps exampleWatcher ''/r/b.js'' (Inl (CaughtError (Some ''ENOENT'')))
          = ([], exampleWatcher, None)"
    by simp
  ultimately show ?thesis using emitted untracked by blast
qed

text \<open>
  A listener of the \<open>touch\<close> event that throws an error with code \<open>ENOENT\<close> on a tracked
  path: the \<open>catch\<close> block emits a \<open>delete\<close> after the \<open>touch\<close> and forgets the path.
\<close>

lemma throwing_listener_is_caught:
  "handleEvent
     (exampleDeps (\<lambda>event. case event of
                      TouchEvent p r m \<Rightarrow> Some (CaughtError (Some ''ENOENT''))
                    | DeleteEvent p r \<Rightarrow> None))
     exampleWatcher ''/r/a.js'' (Inr \<lparr>mtime = 7, stat_size = 3, kind = ''file''\<rparr>)
   = ([EmitAll (TouchEvent ''a.js'' ''/r'' \<lparr>meta_type = ''f'', modifiedTime = 7, meta_size = 3\<rparr>),
       EmitAll (DeleteEvent ''a.js'' ''/r'')],
      exampleWatcher\<lparr>tracked := {}\<rparr>, None)"
  by (simp add: handleEvent_def handleCaught_def exampleDeps_def exampleWatcher_def Let_def)

text \<open>
  C9. Whenever \<open>close\<close> resolves, at time \<open>t\<close>, the watch was stopped at some time \<open>ts\<close> with
  \<open>ts + 100 \<le> t\<close> and the timer fired at \<open>t\<close>; and whenever the callback is called, at time
  \<open>tc\<close>, the watch was stopped at least 100 ms before.
\<close>

theorem close_not_before_cooldown:
  "(close now readdir stopper callback lateness = (Resolved t, trace) \<longrightarrow>
      (\<exists>ts. (ts, WatchStopped) \<in> set trace \<and> ts + 100 \<le> t \<and> (t, TimerFired) \<in> set trace)) \<and>
   ((tc, CallbackCalled) \<in> set (snd (close now readdir stopper callback lateness)) \<longrightarrow>
      (\<exists>ts. (ts, WatchStopped) \<in> set (snd (close now readdir stopper callback lateness)) \<and>
            ts + 100 \<le> tc))"
  by (auto simp: close_def Let_def split: Awaited.splits option.splits Callback.splits)

theorem close_not_before_cooldown_witness:
  "close 0 (Fulfils 5) (Fulfils 3) (Some CallbackReturns) 2
     = (Resolved 110,
        [(5, ReaddirAwaited), (8, WatchStopped), (8, ListenersRemoved), (8, TimerSet 100),
         (110, TimerFired), (110, CallbackCalled)]) \<and>
   (\<exists>ts. (ts, WatchStopped)
           \<in> set [(5, ReaddirAwaited), (8, WatchStopped), (8, ListenersRemoved),
                   (8, TimerSet 100), (110, TimerFired), (110, CallbackCalled)] \<and>
         ts + 100 \<le> (110::nat))"
proof -
  have run: "close 0 (Fulfils 5) (Fulfils 3) (Some CallbackReturns) 2
     = (Resolved 110,
        [(5, ReaddirAwaited), (8, WatchStopped), (8, ListenersRemoved), (8, TimerSet 100),
         (110, TimerFired), (110, CallbackCalled)])"
    by (simp add: close_def)
  from close_not_before_cooldown [of 0 "Fulfils 5" "Fulfils 3" "Some CallbackReturns" 2 110
      "[(5, ReaddirAwaited), (8, WatchStopped), (8, ListenersRemoved), (8, TimerSet 100),
        (110, TimerFired), (110, CallbackCalled)]"] run
  show ?thesis by blast
qed

section \<open>The cache\<close>

lemma getFrom_hit:
  assumes "n < length ss"
    and "\<forall>j<n. settled (store_get (ss ! j) k) = Inr None"
    and "settled (store_get (ss ! n) k) = Inr (Some v)"
  shows "getFrom i ss k = (Inr (Some (v, i + n)), consulted i (take (Suc n) ss) k)"
  using assms
proof (induction ss arbitrary: i n)
  case Nil
  then show ?case by simp
next
  case (Cons s ss)
  show ?case
  proof (cases n)
    case 0
    with Cons.prems show ?thesis by simp
  next
    case (Suc m)
    from Cons.prems(1) Suc have m: "m < length ss" by simp
    from Cons.prems(2) Suc have "settled (store_get ((s # ss) ! 0) k) = Inr None" by blast
    then have first: "settled (store_get s k) = Inr None" by simp
    have miss: "\<forall>j<m. settled (store_get (ss ! j) k) = Inr None"
    proof (intro allI impI)
      fix j assume "j < m"
      with Suc have "Suc j < n" by simp
      with Cons.prems(2) have "settled (store_get ((s # ss) ! Suc j) k) = Inr None" by blast
      then show "settled (store_get (ss ! j) k) = Inr None" by simp
    qed
    from Cons.prems(3) Suc have hit: "settled (store_get (ss ! m) k) = Inr (Some v)" by simp
    from Cons.IH [OF m miss hit, of "Suc i"] first Suc show ?thesis by simp
  qed
qed

lemma getFrom_miss:
  assumes "\<forall>j<length ss. settled (store_get (ss ! j) k) = Inr None"
  shows "getFrom i ss k = (Inr None, consulted i ss k)"
  using assms
proof (induction ss arbitrary: i)
  case Nil
  then show ?case by simp
next
  case (Cons s ss)
  from Cons.prems have "settled (store_get ((s # ss) ! 0) k) = Inr None" by auto
  then have first: "settled (store_get s k) = Inr None" by simp
  have rest: "\<forall>j<length ss. settled (store_get (ss ! j) k) = Inr None"
  proof (intro allI impI)
    fix j assume "j < length ss"
    then have "Suc j < length (s # ss)" by simp
    with Cons.prems have "settled (store_get ((s # ss) ! Suc j) k) = Inr None" by blast
    then show "settled (store_get (ss ! j) k) = Inr None" by simp
  qed
  from Cons.IH [OF rest, of "Suc i"] first show ?case by simp
qed

lemma getFrom_error:
  assumes "n < length ss"
    and "\<forall>j<n. settled (store_get (ss ! j) k) = Inr None"
    and "settled (store_get (ss ! n) k) = Inl e"
  shows "getFrom i ss k = (Inl e, consulted i (take (Suc n) ss) k)"
  using assms
proof (induction ss arbitrary: i n)
  case Nil
  then show ?case by simp
next
  case (Cons s ss)
  show ?case
  proof (cases n)
    case 0
    with Cons.prems show ?thesis by simp
  next
    case (Suc m)
    from Cons.prems(1) Suc have m: "m < length ss" by simp
    from Cons.prems(2) Suc have "settled (store_get ((s # ss) ! 0) k) = Inr None" by blast
    then have first: "settled (store_get s k) = Inr None" by simp
    have miss: "\<forall>j<m. settled (store_get (ss ! j) k) = Inr None"
    proof (intro allI impI)
      fix j assume "j < m"
      with Suc have "Suc j < n" by simp
      with Cons.prems(2) have "settled (store_get ((s # ss) ! Suc j) k) = Inr None" by blast
      then show "settled (store_get (ss ! j) k) = Inr None" by simp
    qed
    from Cons.prems(3) Suc have err: "settled (store_get (ss ! m) k) = Inl e" by simp
    from Cons.IH [OF m miss err, of "Suc i"] first Suc show ?thesis by simp
  qed
qed

lemma consult_GetCalled: "GetCalled j k' \<in> set (consult i s k) \<longleftrightarrow> j = i \<and> k' = k"
  by (simp add: consult_def)

lemma consulted_GetCalled:
  "GetCalled j k' \<in> set (consulted i ss k) \<longleftrightarrow> k' = k \<and> i \<le> j \<and> j < i + length ss"
proof (induction ss arbitrary: i)
  case Nil
  then show ?case by simp
next
  case (Cons s ss)
  have "GetCalled j k' \<in> set (consulted i (s # ss) k)
        \<longleftrightarrow> (j = i \<and> k' = k) \<or> (k' = k \<and> Suc i \<le> j \<and> j < Suc i + length ss)"
    by (simp add: consult_GetCalled Cons.IH)
  also have "\<dots> \<longleftrightarrow> k' = k \<and> i \<le> j \<and> j < i + length (s # ss)"
    by (cases "j = i") (simp_all, arith)
  finally show ?case .
qed

lemma consulted_no_set: "SetCalled j k' v \<notin> set (consulted i ss k)"
  by (induction ss arbitrary: i) (auto simp: consult_def)

text \<open>
  In the observations of a run of \<open>get\<close>, the consultation of a store, with the wait for
  its promise, lies between the consultations of the stores before it and of those after.
\<close>

lemma consulted_split:
  "j < length ss \<Longrightarrow>
   consulted i ss k =
     consulted i (take j ss) k @ consult (i + j) (ss ! j) k @
     consulted (Suc (i + j)) (drop (Suc j) ss) k"
proof (induction ss arbitrary: i j)
  case Nil
  then show ?case by simp
next
  case (Cons s ss)
  show ?case
  proof (cases j)
    case 0
    then show ?thesis by simp
  next
    case (Suc m)
    with Cons.prems have "m < length ss" by simp
    from Cons.IH [OF this, of "Suc i"] Suc show ?thesis by simp
  qed
qed

text \<open>The test "awaits for promises on stores, even if they return undefined".\<close>

lemma cacheGet_awaits_promise_test:
  "cacheGet
     (newCache [exampleStore ''store1'' (GetPromise None) SetReturns,
                exampleStore ''store2'' (GetReturns None) SetReturns]) ''foo''
   = (Inr None,
      [GetCalled 0 ''foo'', GetAwaited 0, GetCalled (Suc 0) ''foo''],
      newCache [exampleStore ''store1'' (GetPromise None) SetReturns,
                exampleStore ''store2'' (GetReturns None) SetReturns])"
  by (simp add: cacheGet_def newCache_def exampleStore_def settled_def consult_def isPromise_def)

lemma consult_cases:
  "consult i s k =
     (case store_get s k of
        GetPromise x \<Rightarrow> [GetCalled i k, GetAwaited i]
      | GetRejects e \<Rightarrow> [GetCalled i k, GetAwaited i]
      | _ \<Rightarrow> [GetCalled i k])"
  by (simp add: consult_def isPromise_def split: GetOutcome.splits)

lemma consulted_concat:
  "consulted i ss k =
     concat (map (\<lambda>j. case store_get (ss ! j) k of
                          GetPromise x \<Rightarrow> [GetCalled (i + j) k, GetAwaited (i + j)]
                        | GetRejects e \<Rightarrow> [GetCalled (i + j) k, GetAwaited (i + j)]
                        | _ \<Rightarrow> [GetCalled (i + j) k]) [0..<length ss])"
proof (induction ss arbitrary: i)
  case Nil
  show ?case by simp
next
  case (Cons s ss)
  have "[0..<length (s # ss)] = 0 # map Suc [0..<length ss]"
    by (simp add: upt_conv_Cons map_Suc_upt del: upt_Suc)
  then show ?case
    by (simp add: consult_cases Cons.IH [of "Suc i"] o_def del: upt_Suc
        cong: GetOutcome.case_cong)
qed

lemma consulted_take_concat:
  assumes "i < length ss"
  shows "consulted 0 (take (Suc i) ss) k =
     concat (map (\<lambda>j. case store_get (ss ! j) k of
                          GetPromise x \<Rightarrow> [GetCalled j k, GetAwaited j]
                        | GetRejects e \<Rightarrow> [GetCalled j k, GetAwaited j]
                        | _ \<Rightarrow> [GetCalled j k]) [0..<Suc i])"
proof -
  from assms have len: "length (take (Suc i) ss) = Suc i" by simp
  have "consulted 0 (take (Suc i) ss) k =
     concat (map (\<lambda>j. case store_get (take (Suc i) ss ! j) k of
                          GetPromise x \<Rightarrow> [GetCalled j k, GetAwaited j]
                        | GetRejects e \<Rightarrow> [GetCalled j k, GetAwaited j]
                        | _ \<Rightarrow> [GetCalled j k]) [0..<Suc i])"
    using consulted_concat [of 0 "take (Suc i) ss" k] len
    by (simp del: upt_Suc cong: GetOutcome.case_cong)
  also have "\<dots> =
     concat (map (\<lambda>j. case store_get (ss ! j) k of
                          GetPromise x \<Rightarrow> [GetCalled j k, GetAwaited j]
                        | GetRejects e \<Rightarrow> [GetCalled j k, GetAwaited j]
                        | _ \<Rightarrow> [GetCalled j k]) [0..<Suc i])"
    by (rule arg_cong [where f = concat], rule map_cong) (simp_all del: upt_Suc)
  finally show ?thesis .
qed

lemma settled_miss:
  "outcome = GetReturns None \<or> outcome = GetPromise None \<Longrightarrow> settled outcome = Inr None"
  by (auto simp: settled_def)

lemma settled_hit:
  "outcome = GetReturns (Some v) \<or> outcome = GetPromise (Some v)
   \<Longrightarrow> settled outcome = Inr (Some v)"
  by (auto simp: settled_def)

lemma settled_error:
  "outcome = GetThrows e \<or> outcome = GetRejects e \<Longrightarrow> settled outcome = Inl e"
  by (auto simp: settled_def)

text \<open>
  C1. If the store at index \<open>i\<close> is the first whose \<open>get\<close> gives a non-null value \<open>v\<close>, as
  its return value or as the value of the promise it returns, every store before it giving
  \<open>null\<close> in one of the two ways, then \<open>get\<close> returns \<open>v\<close>, and what is observed is: for each
  of the stores 0 to \<open>i\<close> in index order, the call of its \<open>get\<close>, followed, when it returned
  a promise, by the wait for that promise, before anything of the next store. The \<open>get\<close> of
  a store is called exactly when its index is at most \<open>i\<close>. If every store gives \<open>null\<close>,
  \<open>get\<close> returns \<open>null\<close> after consulting all of them in the same manner.
\<close>

theorem cacheGet_sequential:
  "(\<forall>i v. i < length (stores cache) \<and>
          (\<forall>j<i. store_get (stores cache ! j) k = GetReturns None \<or>
                 store_get (stores cache ! j) k = GetPromise None) \<and>
          (store_get (stores cache ! i) k = GetReturns (Some v) \<or>
           store_get (stores cache ! i) k = GetPromise (Some v)) \<longrightarrow>
          fst (cacheGet cache k) = Inr (Some v) \<and>
          fst (snd (cacheGet cache k)) =
            concat (map (\<lambda>j. case store_get (stores cache ! j) k of
                                 GetPromise x \<Rightarrow> [GetCalled j k, GetAwaited j]
                               | _ \<Rightarrow> [GetCalled j k]) [0..<Suc i]) \<and>
          (\<forall>j. GetCalled j k \<in> set (fst (snd (cacheGet cache k))) \<longleftrightarrow> j \<le> i)) \<and>
   ((\<forall>j<length (stores cache). store_get (stores cache ! j) k = GetReturns None \<or>
                                store_get (stores cache ! j) k = GetPromise None) \<longrightarrow>
      fst (cacheGet cache k) = Inr None \<and>
      fst (snd (cacheGet cache k)) =
        concat (map (\<lambda>j. case store_get (stores cache ! j) k of
                             GetPromise x \<Rightarrow> [GetCalled j k, GetAwaited j]
                           | _ \<Rightarrow> [GetCalled j k]) [0..<length (stores cache)]) \<and>
      (\<forall>j. GetCalled j k \<in> set (fst (snd (cacheGet cache k))) \<longleftrightarrow> j < length (stores cache)))"
proof -
  let ?obs = "\<lambda>j. case store_get (stores cache ! j) k of
                     GetPromise x \<Rightarrow> [GetCalled j k, GetAwaited j]
                   | GetRejects e \<Rightarrow> [GetCalled j k, GetAwaited j]
                   | _ \<Rightarrow> [GetCalled j k]"
  let ?obs' = "\<lambda>j. case store_get (stores cache ! j) k of
                     GetPromise x \<Rightarrow> [GetCalled j k, GetAwaited j]
                   | _ \<Rightarrow> [GetCalled j k]"
  have hit: "fst (cacheGet cache k) = Inr (Some v) \<and>
          fst (snd (cacheGet cache k)) = concat (map ?obs' [0..<Suc i]) \<and>
          (\<forall>j. GetCalled j k \<in> set (fst (snd (cacheGet cache k))) \<longleftrightarrow> j \<le> i)"
    if h: "i < length (stores cache) \<and>
          (\<forall>j<i. store_get (stores cache ! j) k = GetReturns None \<or>
                 store_get (stores cache ! j) k = GetPromise None) \<and>
          (store_get (stores cache ! i) k = GetReturns (Some v) \<or>
           store_get (stores cache ! i) k = GetPromise (Some v))"
    for i v
  proof -
    from h have i: "i < length (stores cache)" by blast
    from h have miss: "\<forall>j<i. settled (store_get (stores cache ! j) k) = Inr None"
      by (blast intro: settled_miss)
    from h have found: "settled (store_get (stores cache ! i) k) = Inr (Some v)"
      by (blast intro: settled_hit)
    from getFrom_hit [OF i miss found, of 0]
    have g: "getFrom 0 (stores cache) k
             = (Inr (Some (v, i)), consulted 0 (take (Suc i) (stores cache)) k)"
      by simp
    then have r: "fst (cacheGet cache k) = Inr (Some v)" by (simp add: cacheGet_def)
    from g have c: "fst (snd (cacheGet cache k)) = consulted 0 (take (Suc i) (stores cache)) k"
      by (simp add: cacheGet_def)
    have same: "map ?obs [0..<Suc i] = map ?obs' [0..<Suc i]"
    proof (rule map_cong [OF refl])
      fix j assume "j \<in> set [0..<Suc i]"
      then have "j < i \<or> j = i" by auto
      with h show "?obs j = ?obs' j" by (auto split: GetOutcome.splits)
    qed
    from c consulted_take_concat [OF i, of k]
    have "fst (snd (cacheGet cache k)) = concat (map ?obs [0..<Suc i])" by (simp only:)
    then have t: "fst (snd (cacheGet cache k)) = concat (map ?obs' [0..<Suc i])"
      by (simp only: same)
    from i have "length (take (Suc i) (stores cache)) = Suc i" by simp
    then have "\<forall>j. GetCalled j k \<in> set (fst (snd (cacheGet cache k))) \<longleftrightarrow> j \<le> i"
      unfolding c consulted_GetCalled by auto
    with r t show ?thesis by blast
  qed
  have allmiss: "fst (cacheGet cache k) = Inr None \<and>
      fst (snd (cacheGet cache k)) = concat (map ?obs' [0..<length (stores cache)]) \<and>
      (\<forall>j. GetCalled j k \<in> set (fst (snd (cacheGet cache k))) \<longleftrightarrow> j < length (stores cache))"
    if h: "\<forall>j<length (stores cache). store_get (stores cache ! j) k = GetReturns None \<or>
                                store_get (stores cache ! j) k = GetPromise None"
  proof -
    from h have miss: "\<forall>j<length (stores cache). settled (store_get (stores cache ! j) k) = Inr None"
      by (blast intro: settled_miss)
    then have g: "getFrom 0 (stores cache) k = (Inr None, consulted 0 (stores cache) k)"
      by (rule getFrom_miss)
    then have r: "fst (cacheGet cache k) = Inr None" by (simp add: cacheGet_def)
    from g have c: "fst (snd (cacheGet cache k)) = consulted 0 (stores cache) k"
      by (simp add: cacheGet_def)
    have same: "map ?obs [0..<length (stores cache)] = map ?obs' [0..<length (stores cache)]"
    proof (rule map_cong [OF refl])
      fix j assume "j \<in> set [0..<length (stores cache)]"
      then have "j < length (stores cache)" by simp
      with h show "?obs j = ?obs' j" by (auto split: GetOutcome.splits)
    qed
    from c consulted_concat [of 0 "stores cache" k]
    have "fst (snd (cacheGet cache k)) = concat (map ?obs [0..<length (stores cache)])"
      by (simp del: upt_Suc cong: GetOutcome.case_cong)
    then have t: "fst (snd (cacheGet cache k)) = concat (map ?obs' [0..<length (stores cache)])"
      by (simp only: same)
    have "\<forall>j. GetCalled j k \<in> set (fst (snd (cacheGet cache k))) \<longleftrightarrow> j < length (stores cache)"
      unfolding c consulted_GetCalled by simp
    with r t show ?thesis by blast
  qed
  from hit allmiss show ?thesis by blast
qed

theorem cacheGet_sequential_witness:
  "fst (cacheGet (newCache promisedHitStores) ''foo'') = Inr (Some ''hit!'') \<and>
   fst (snd (cacheGet (newCache promisedHitStores) ''foo''))
     = [GetCalled 0 ''foo'', GetAwaited 0, GetCalled (Suc 0) ''foo'', GetAwaited (Suc 0)] \<and>
   GetCalled 2 ''foo'' \<notin> set (fst (snd (cacheGet (newCache promisedHitStores) ''foo''))) \<and>
   fst (cacheGet (newCache promisedMissStores) ''foo'') = Inr None \<and>
   fst (snd (cacheGet (newCache promisedMissStores) ''foo''))
     = [GetCalled 0 ''foo'', GetAwaited 0, GetCalled (Suc 0) ''foo'']"
proof -
  let ?c = "newCache promisedHitStores"
  let ?d = "newCache promisedMissStores"
  have pre: "Suc 0 < length (stores ?c) \<and>
          (\<forall>j<Suc 0. store_get (stores ?c ! j) ''foo'' = GetReturns None \<or>
                      store_get (stores ?c ! j) ''foo'' = GetPromise None) \<and>
          (store_get (stores ?c ! Suc 0) ''foo'' = GetReturns (Some ''hit!'') \<or>
           store_get (stores ?c ! Suc 0) ''foo'' = GetPromise (Some ''hit!''))"
    by (simp add: newCache_def promisedHitStores_def exampleStore_def)
  from cacheGet_sequential [of ?c "''foo''"] pre
  have r: "fst (cacheGet ?c ''foo'') = Inr (Some ''hit!'')"
    and c: "fst (snd (cacheGet ?c ''foo'')) =
              concat (map (\<lambda>j. case store_get (stores ?c ! j) ''foo'' of
                                   GetPromise x \<Rightarrow> [GetCalled j ''foo'', GetAwaited j]
                                 | _ \<Rightarrow> [GetCalled j ''foo'']) [0..<Suc (Suc 0)])"
    and n: "\<forall>j. GetCalled j ''foo'' \<in> set (fst (snd (cacheGet ?c ''foo''))) \<longleftrightarrow> j \<le> Suc 0"
    by blast+
  have c': "fst (snd (cacheGet ?c ''foo''))
        = [GetCalled 0 ''foo'', GetAwaited 0, GetCalled (Suc 0) ''foo'', GetAwaited (Suc 0)]"
    unfolding c by (simp add: newCache_def promisedHitStores_def exampleStore_def)
  have pre2: "\<forall>j<length (stores ?d). store_get (stores ?d ! j) ''foo'' = GetReturns None \<or>
                      store_get (stores ?d ! j) ''foo'' = GetPromise None"
    by (simp add: newCache_def promisedMissStores_def exampleStore_def less_Suc_eq)
  from cacheGet_sequential [of ?d "''foo''"] pre2
  have r2: "fst (cacheGet ?d ''foo'') = Inr None"
    and c2: "fst (snd (cacheGet ?d ''foo'')) =
              concat (map (\<lambda>j. case store_get (stores ?d ! j) ''foo'' of
                                   GetPromise x \<Rightarrow> [GetCalled j ''foo'', GetAwaited j]
                                 | _ \<Rightarrow> [GetCalled j ''foo'']) [0..<length (stores ?d)])"
    by blast+
  have c2': "fst (snd (cacheGet ?d ''foo''))
        = [GetCalled 0 ''foo'', GetAwaited 0, GetCalled (Suc 0) ''foo'']"
    unfolding c2 by (simp add: newCache_def promisedMissStores_def exampleStore_def upt_rec)
  from r c' n r2 c2' show ?thesis by simp
qed

text \<open>
  C7. If the \<open>get\<close> of the store at index \<open>i\<close> throws \<open>e\<close>, or returns a promise that rejects
  with \<open>e\<close>, the stores before it having given \<open>null\<close>, then \<open>get\<close> rejects with \<open>e\<close>: no
  value is returned, the stores 0 to \<open>i\<close> have been consulted and none after them, and the
  cache is unchanged.
\<close>

theorem cacheGet_propagates_error:
  assumes "i < length (stores cache)"
    and "\<forall>j<i. store_get (stores cache ! j) k = GetReturns None \<or>
               store_get (stores cache ! j) k = GetPromise None"
    and "store_get (stores cache ! i) k = GetThrows e \<or>
         store_get (stores cache ! i) k = GetRejects e"
  shows "cacheGet cache k =
           (Inl e,
            concat (map (\<lambda>j. case store_get (stores cache ! j) k of
                                 GetPromise x \<Rightarrow> [GetCalled j k, GetAwaited j]
                               | GetRejects x \<Rightarrow> [GetCalled j k, GetAwaited j]
                               | _ \<Rightarrow> [GetCalled j k]) [0..<Suc i]),
            cache)"
proof -
  from assms(2) have miss: "\<forall>j<i. settled (store_get (stores cache ! j) k) = Inr None"
    by (blast intro: settled_miss)
  from assms(3) have err: "settled (store_get (stores cache ! i) k) = Inl e"
    by (rule settled_error)
  from getFrom_error [OF assms(1) miss err, of 0]
  have "cacheGet cache k = (Inl e, consulted 0 (take (Suc i) (stores cache)) k, cache)"
    by (simp add: cacheGet_def)
  then show ?thesis by (simp only: consulted_take_concat [OF assms(1), of k])
qed

theorem cacheGet_propagates_error_witness:
  "cacheGet (newCache buggyGetStores) ''foo''
   = (Inl ''TypeError: bar'',
      [GetCalled 0 ''foo'', GetCalled (Suc 0) ''foo'', GetAwaited (Suc 0)],
      newCache buggyGetStores) \<and>
   cacheGet (newCache throwingGetStores) ''foo''
   = (Inl ''TypeError: bar'',
      [GetCalled 0 ''foo'', GetAwaited 0, GetCalled (Suc 0) ''foo''],
      newCache throwingGetStores)"
proof -
  let ?c = "newCache buggyGetStores"
  let ?d = "newCache throwingGetStores"
  have a: "Suc 0 < length (stores ?c)"
    by (simp add: newCache_def buggyGetStores_def)
  have b: "\<forall>j<Suc 0. store_get (stores ?c ! j) ''foo'' = GetReturns None \<or>
                      store_get (stores ?c ! j) ''foo'' = GetPromise None"
    by (simp add: newCache_def buggyGetStores_def exampleStore_def)
  have c: "store_get (stores ?c ! Suc 0) ''foo'' = GetThrows ''TypeError: bar'' \<or>
           store_get (stores ?c ! Suc 0) ''foo'' = GetRejects ''TypeError: bar''"
    by (simp add: newCache_def buggyGetStores_def exampleStore_def)
  have one: "cacheGet ?c ''foo''
   = (Inl ''TypeError: bar'',
      [GetCalled 0 ''foo'', GetCalled (Suc 0) ''foo'', GetAwaited (Suc 0)], ?c)"
    unfolding cacheGet_propagates_error [OF a b c]
    by (simp add: newCache_def buggyGetStores_def exampleStore_def)
  have a': "Suc 0 < length (stores ?d)"
    by (simp add: newCache_def throwingGetStores_def)
  have b': "\<forall>j<Suc 0. store_get (stores ?d ! j) ''foo'' = GetReturns None \<or>
                      store_get (stores ?d ! j) ''foo'' = GetPromise None"
    by (simp add: newCache_def throwingGetStores_def exampleStore_def)
  have c': "store_get (stores ?d ! Suc 0) ''foo'' = GetThrows ''TypeError: bar'' \<or>
           store_get (stores ?d ! Suc 0) ''foo'' = GetRejects ''TypeError: bar''"
    by (simp add: newCache_def throwingGetStores_def exampleStore_def)
  have two: "cacheGet ?d ''foo''
   = (Inl ''TypeError: bar'',
      [GetCalled 0 ''foo'', GetAwaited 0, GetCalled (Suc 0) ''foo''], ?d)"
    unfolding cacheGet_propagates_error [OF a' b' c']
    by (simp add: newCache_def throwingGetStores_def exampleStore_def)
  from one two show ?thesis by simp
qed

text \<open>
  C2 (amended). If the store at index \<open>i\<close> is the first whose \<open>get\<close> yields a non-null value
  \<open>v\<close>, then \<open>get\<close> returns \<open>v\<close> without calling the \<open>set\<close> of any store, and a \<open>set\<close> for the
  same key that follows calls the \<open>set\<close> of the stores 0 to \<open>i - 1\<close>, once each and in order,
  and of no other store.
\<close>

theorem cacheGet_records_hit:
  assumes "i < length (stores cache)"
    and "\<forall>j<i. settled (store_get (stores cache ! j) k) = Inr None"
    and "settled (store_get (stores cache ! i) k) = Inr (Some v)"
  shows "\<exists>calls cache'.
           cacheGet cache k = (Inr (Some v), calls, cache') \<and>
           (\<forall>j k' w. SetCalled j k' w \<notin> set calls) \<and>
           (\<forall>w. snd (cacheSet cache' k w) = map (\<lambda>j. SetCalled j k w) [0..<i])"
proof -
  let ?cache' = "cache\<lparr>hits := (hits cache)(k \<mapsto> i)\<rparr>"
  from getFrom_hit [OF assms, of 0]
  have run: "cacheGet cache k
             = (Inr (Some v), consulted 0 (take (Suc i) (stores cache)) k, ?cache')"
    by (simp add: cacheGet_def)
  have "\<forall>w. snd (cacheSet ?cache' k w) = map (\<lambda>j. SetCalled j k w) [0..<i]"
    using assms(1) by (simp add: cacheSet_def writtenStores_def Let_def)
  moreover have "\<forall>j k' w. SetCalled j k' w \<notin> set (consulted 0 (take (Suc i) (stores cache)) k)"
    by (simp add: consulted_no_set)
  ultimately show ?thesis using run by blast
qed

theorem cacheGet_records_hit_witness:
  "\<exists>calls cache'.
     cacheGet (newCache layeredStores) ''k'' = (Inr (Some ''X''), calls, cache') \<and>
     snd (cacheSet cache' ''k'' ''X'') = [SetCalled 0 ''k'' ''X'']"
proof -
  let ?c = "newCache layeredStores"
  have a: "Suc 0 < length (stores ?c)"
    by (simp add: newCache_def layeredStores_def)
  have b: "\<forall>j<Suc 0. settled (store_get (stores ?c ! j) ''k'') = Inr None"
    by (simp add: newCache_def layeredStores_def exampleStore_def settled_def)
  have c: "settled (store_get (stores ?c ! Suc 0) ''k'') = Inr (Some ''X'')"
    by (simp add: newCache_def layeredStores_def exampleStore_def settled_def)
  from cacheGet_records_hit [OF a b c] obtain calls cache' where
    "cacheGet ?c ''k'' = (Inr (Some ''X''), calls, cache')"
    "\<forall>w. snd (cacheSet cache' ''k'' w) = map (\<lambda>j. SetCalled j ''k'' w) [0..<Suc 0]"
    by blast
  then have "cacheGet ?c ''k'' = (Inr (Some ''X''), calls, cache') \<and>
             snd (cacheSet cache' ''k'' ''X'') = [SetCalled 0 ''k'' ''X'']"
    by simp
  then show ?thesis by blast
qed

text \<open>
  C2 as stated fails in the cache layering scenario: \<open>get\<close> returns \<open>X\<close> from the second
  store, and no \<open>set\<close> of the first store is observed during it.
\<close>

theorem cacheGet_no_backfill_counterexample:
  "fst (cacheGet (newCache layeredStores) ''k'') = Inr (Some ''X'') \<and>
   fst (snd (cacheGet (newCache layeredStores) ''k''))
     = [GetCalled 0 ''k'', GetCalled (Suc 0) ''k'']"
  by (simp add: cacheGet_def newCache_def layeredStores_def exampleStore_def settled_def
      consult_def isPromise_def)













section \<open>Constant folding\<close>

text \<open>
  The model agrees with the tests of the plugin that stay within the spec's list: "can
  optimize conditional expressions with constant conditions", "does not mess up with
  negative numbers", the three tests on \<open>void\<close>, and "recursively strips off functions".
\<close>

lemma folding_conditional_expressions_test:
  "constantFoldingPlugin
     [ExpressionStatement (CallExpression (Ident ''a'')
        [BinaryExpression LooseEquals (Lit (StringLiteral ''production''))
           (Lit (StringLiteral ''production'')),
         BinaryExpression StrictNotEquals (Lit (StringLiteral ''production''))
           (Lit (StringLiteral ''development'')),
         LogicalExpression LogicalOr
           (LogicalExpression LogicalOr
              (LogicalExpression LogicalAnd (Lit (BooleanLiteral False)) (Lit (NumericLiteral 1)))
              (Lit (NumericLiteral 0)))
           (Lit (NumericLiteral 2)),
         LogicalExpression LogicalOr (Lit (BooleanLiteral True)) (Lit (NumericLiteral 3)),
         ConditionalExpression
           (BinaryExpression StrictEquals (Lit (StringLiteral ''android''))
              (Lit (StringLiteral ''ios'')))
           (Lit NullLiteral) (ObjectExpression []),
         ConditionalExpression
           (BinaryExpression StrictEquals (Lit (StringLiteral ''android''))
              (Lit (StringLiteral ''android'')))
           (ObjectExpression [(''a'', Lit (NumericLiteral 1))])
           (ObjectExpression [(''a'', Lit (NumericLiteral 0))]),
         ConditionalExpression
           (BinaryExpression StrictEquals (Lit (StringLiteral ''foo''))
              (Lit (StringLiteral ''bar'')))
           (Ident ''b'') (Ident ''c''),
         ConditionalExpression (CallExpression (Ident ''f'') [])
           (CallExpression (Ident ''g'') []) (CallExpression (Ident ''h'') [])])]
   = [ExpressionStatement (CallExpression (Ident ''a'')
        [Lit (BooleanLiteral True), Lit (BooleanLiteral True), Lit (NumericLiteral 2),
         Lit (BooleanLiteral True), ObjectExpression [],
         ObjectExpression [(''a'', Lit (NumericLiteral 1))], Ident ''c'',
         ConditionalExpression (CallExpression (Ident ''f'') [])
           (CallExpression (Ident ''g'') []) (CallExpression (Ident ''h'') [])])]"
  by code_simp

lemma folding_negative_numbers_test:
  "map foldExpr
     [UnaryExpression Plus (Lit (NumericLiteral 0)), Lit (NumericLiteral 0),
      UnaryExpression Minus (Lit (NumericLiteral 0)), UnaryExpression Plus (Lit (NumericLiteral 1)),
      Lit (NumericLiteral 1), UnaryExpression Minus (Lit (NumericLiteral 1))]
   = [Lit (NumericLiteral 0), Lit (NumericLiteral 0),
      UnaryExpression Minus (Lit (NumericLiteral 0)), Lit (NumericLiteral 1),
      Lit (NumericLiteral 1), UnaryExpression Minus (Lit (NumericLiteral 1))]"
  by code_simp

lemma folding_void_tests:
  "foldExpr (UnaryExpression Void (MemberExpression (Ident ''obj'') ''prop''))
     = UnaryExpression Void (MemberExpression (Ident ''obj'') ''prop'') \<and>
   foldExpr (UnaryExpression Void (OptionalCallExpression (Ident ''foo'') []))
     = UnaryExpression Void (OptionalCallExpression (Ident ''foo'') []) \<and>
   constantFoldingPlugin
     [IfStatement (UnaryExpression Void (Lit (NumericLiteral 0)))
        (BlockStatement [ExpressionStatement (CallExpression (Ident ''foo'') [])]) None] = []"
  by code_simp

lemma folding_strips_functions_test:
  "constantFoldingPlugin
     [FunctionDeclaration ''x'' [] [],
      IfStatement (Lit (BooleanLiteral False))
        (BlockStatement [ExpressionStatement (CallExpression (Ident ''x'') [])]) None] = []"
  by code_simp

lemma if_false_elided:
  "evaluate (foldExpr t) = Some v \<Longrightarrow> \<not> truthy v
   \<Longrightarrow> foldStmt (IfStatement t consequent None) = []"
  by simp

lemma optional_call_kept:
  "foldExpr (OptionalCallExpression f args) = OptionalCallExpression (foldExpr f) (map foldExpr args)"
  by simp

text \<open>
  C5. On the syntax trees of the three inputs: \<open>var a = 'android' === 'android' ? {a:1} :
  {a:0};\<close> becomes \<open>var a = {a: 1};\<close>, with no ternary; \<open>foo?.();\<close> is left as it is; and
  \<open>if (false) { x(); }\<close> leaves no statement.
\<close>

theorem constant_folding_scenarios:
  "constantFoldingPlugin
     [VariableDeclaration ''a''
        (ConditionalExpression
           (BinaryExpression StrictEquals (Lit (StringLiteral ''android''))
              (Lit (StringLiteral ''android'')))
           (ObjectExpression [(''a'', Lit (NumericLiteral 1))])
           (ObjectExpression [(''a'', Lit (NumericLiteral 0))]))]
   = [VariableDeclaration ''a'' (ObjectExpression [(''a'', Lit (NumericLiteral 1))])] \<and>
   constantFoldingPlugin [ExpressionStatement (OptionalCallExpression (Ident ''foo'') [])]
   = [ExpressionStatement (OptionalCallExpression (Ident ''foo'') [])] \<and>
   constantFoldingPlugin
     [IfStatement (Lit (BooleanLiteral False))
        (BlockStatement [ExpressionStatement (CallExpression (Ident ''x'') [])]) None]
   = []"
  by code_simp

end
